theory Spec2Isabelle
  imports Main "HOL-Library.Word"
begin

unbundle bit_operations_syntax

section \<open>Strings\<close>

text \<open>
  A string is a list of characters. The source works on UTF-16 code units; the model uses
  the 8-bit characters of HOL, so the white space of \<^verbatim>\<open>trim()\<close> and of the regular
  expression class \<^verbatim>\<open>\s\<close> is the part of it below 256: tab, line feed, vertical tab,
  form feed, carriage return, space and the no-break space.
\<close>

definition isWs :: "char \<Rightarrow> bool" where
  "isWs c = (c = CHR 0x09 \<or> c = CHR 0x0A \<or> c = CHR 0x0B \<or> c = CHR 0x0C \<or> c = CHR 0x0D
             \<or> c = CHR 0x20 \<or> c = CHR 0xA0)"

definition trimStart :: "string \<Rightarrow> string" where
  "trimStart s = dropWhile isWs s"

definition trim :: "string \<Rightarrow> string" where
  "trim s = rev (dropWhile isWs (rev (dropWhile isWs s)))"

definition startsWith :: "string \<Rightarrow> string \<Rightarrow> bool" where
  "startsWith s p = (take (length p) s = p)"

definition endsWith :: "string \<Rightarrow> string \<Rightarrow> bool" where
  "endsWith s p = (length p \<le> length s \<and> drop (length s - length p) s = p)"

text \<open>\<^verbatim>\<open>parts.join(sep)\<close>\<close>

fun joinWith :: "string \<Rightarrow> string list \<Rightarrow> string" where
  "joinWith sep [] = []"
| "joinWith sep [x] = x"
| "joinWith sep (x # y # ys) = x @ sep @ joinWith sep (y # ys)"

text \<open>\<^verbatim>\<open>content.split('\n')\<close>: always at least one piece.\<close>

fun splitLines :: "string \<Rightarrow> string list" where
  "splitLines [] = [[]]"
| "splitLines (c # cs) =
     (if c = CHR 0x0A then [] # splitLines cs
      else (case splitLines cs of
              piece # pieces \<Rightarrow> (c # piece) # pieces
            | [] \<Rightarrow> [[c]]))"

text \<open>Decimal rendering of a number inside a template literal.\<close>

definition digitChar :: "nat \<Rightarrow> char" where
  "digitChar d = ''0123456789abcdef'' ! d"

fun showNat :: "nat \<Rightarrow> string" where
  "showNat n = (if n < 10 then [digitChar n] else showNat (n div 10) @ [digitChar (n mod 10)])"

declare showNat.simps [simp del]

definition showInt :: "int \<Rightarrow> string" where
  "showInt k = (if k < 0 then CHR ''-'' # showNat (nat (- k)) else showNat (nat k))"

text \<open>
  \<^verbatim>\<open>xs.slice(a, b)\<close> on integers: a negative index counts from the end, and both ends
  are clamped to the array.
\<close>

definition jsSlice :: "'a list \<Rightarrow> int \<Rightarrow> int \<Rightarrow> 'a list" where
  "jsSlice xs a b =
     (let n = int (length xs);
          k = (if a < 0 then max (n + a) 0 else min a n);
          e = (if b < 0 then max (n + b) 0 else min b n)
      in take (nat (e - k)) (drop (nat k) xs))"

section \<open>Data model (types.ts)\<close>

datatype ParagraphType =
  PText | Heading | PList | Code | Quote | Empty | Html | Frontmatter | Mdx

datatype EnhancementMode = Expand | Clarify | Professional | Casual | Technical | ListExpand

text \<open>
  A paragraph id is \<^verbatim>\<open>para_${Date.now()}_${this.idCounter++}\<close>; the model keeps its two
  numbers, the time stamp and the counter, as a pair.
\<close>

type_synonym ParagraphId = "nat \<times> nat"

record Paragraph =
  content :: string
  startLine :: int
  endLine :: int
  ptype :: ParagraphType
  pid :: ParagraphId
  ignore :: bool
  noEnhance :: bool
  styleOverride :: "EnhancementMode option"

section \<open>Directive comments (the regular expressions of markdownProcessor.ts)\<close>

text \<open>
  The regular expressions of the source are written out as matchers on character lists.
  A matcher takes the text at the current position and returns the rest after the match.
  In every pattern of the source a greedy \<^verbatim>\<open>\s*\<close> is followed by a token that does not
  start with white space, and no alternative is a prefix of another one, so that at most
  one way of matching exists and no backtracking is needed.
\<close>

definition isUpper :: "char \<Rightarrow> bool" where
  "isUpper c = (c \<in> set ''ABCDEFGHIJKLMNOPQRSTUVWXYZ'')"

definition isLower :: "char \<Rightarrow> bool" where
  "isLower c = (c \<in> set ''abcdefghijklmnopqrstuvwxyz'')"

definition isDigit :: "char \<Rightarrow> bool" where
  "isDigit c = (c \<in> set ''0123456789'')"

definition isAlnum :: "char \<Rightarrow> bool" where
  "isAlnum c = (isLower c \<or> isUpper c \<or> isDigit c)"

definition toLower :: "char \<Rightarrow> char" where
  "toLower c =
     (case map_of (zip ''ABCDEFGHIJKLMNOPQRSTUVWXYZ'' ''abcdefghijklmnopqrstuvwxyz'') c of
        Some d \<Rightarrow> d | None \<Rightarrow> c)"

text \<open>A literal token, as written.\<close>

definition lit :: "string \<Rightarrow> string \<Rightarrow> string option" where
  "lit w s = (if startsWith s w then Some (drop (length w) s) else None)"

text \<open>A literal token under the flag \<^verbatim>\<open>i\<close>; the token is given in lower case.\<close>

definition litCI :: "string \<Rightarrow> string \<Rightarrow> string option" where
  "litCI w s = (if map toLower (take (length w) s) = w then Some (drop (length w) s) else None)"

definition skipWs :: "string \<Rightarrow> string" where
  "skipWs s = dropWhile isWs s"

text \<open>
  \<^verbatim>\<open><!--\s*word\s*-->\<close> and \<^verbatim>\<open>\{\/\*\s*word\s*\*\/\}\<close>: the opening token, the word and
  the closing token, with optional white space between them.
\<close>

definition commentAt :: "string \<Rightarrow> string \<Rightarrow> string \<Rightarrow> string \<Rightarrow> string option" where
  "commentAt opn cls word s =
     (case lit opn s of
        None \<Rightarrow> None
      | Some r1 \<Rightarrow>
          (case litCI word (skipWs r1) of
             None \<Rightarrow> None
           | Some r2 \<Rightarrow> lit cls (skipWs r2)))"

text \<open>The two notations, the HTML comment first, as in the alternation of the source.\<close>

definition directiveAt :: "string \<Rightarrow> string \<Rightarrow> string option" where
  "directiveAt word s =
     (case commentAt ''<!--'' ''-->'' word s of
        Some r \<Rightarrow> Some r
      | None \<Rightarrow> commentAt ''{/*'' ''*/}'' word s)"

definition modeNames :: "(string \<times> EnhancementMode) list" where
  "modeNames = [(''expand'', Expand), (''clarify'', Clarify), (''professional'', Professional),
                (''casual'', Casual), (''technical'', Technical), (''list-expand'', ListExpand)]"

text \<open>
  \<^verbatim>\<open>(expand|clarify|professional|casual|technical|list-expand)\s*close\<close>: the first
  alternative after which the rest of the pattern matches.
\<close>

fun modeAt :: "(string \<times> EnhancementMode) list \<Rightarrow> string \<Rightarrow> string \<Rightarrow> (EnhancementMode \<times> string) option" where
  "modeAt [] cls s = None"
| "modeAt ((name, m) # ms) cls s =
     (case litCI name s of
        None \<Rightarrow> modeAt ms cls s
      | Some r \<Rightarrow>
          (case lit cls (skipWs r) of
             None \<Rightarrow> modeAt ms cls s
           | Some r' \<Rightarrow> Some (m, r')))"

definition styleCommentAt :: "string \<Rightarrow> string \<Rightarrow> string \<Rightarrow> (EnhancementMode \<times> string) option" where
  "styleCommentAt opn cls s =
     (case lit opn s of
        None \<Rightarrow> None
      | Some r1 \<Rightarrow>
          (case litCI ''ai-style:'' (skipWs r1) of
             None \<Rightarrow> None
           | Some r2 \<Rightarrow> modeAt modeNames cls (skipWs r2)))"

definition styleAt :: "string \<Rightarrow> (EnhancementMode \<times> string) option" where
  "styleAt s =
     (case styleCommentAt ''<!--'' ''-->'' s of
        Some r \<Rightarrow> Some r
      | None \<Rightarrow> styleCommentAt ''{/*'' ''*/}'' s)"

text \<open>A pattern without anchors: the leftmost position at which the matcher succeeds.\<close>

fun searchFrom :: "(string \<Rightarrow> 'a option) \<Rightarrow> string \<Rightarrow> 'a option" where
  "searchFrom m [] = m []"
| "searchFrom m (c # cs) = (case m (c # cs) of Some r \<Rightarrow> Some r | None \<Rightarrow> searchFrom m cs)"

text \<open>\<^verbatim>\<open>AI_IGNORE_PATTERN.test(line)\<close>\<close>

definition hasAiIgnoreComment :: "string \<Rightarrow> bool" where
  "hasAiIgnoreComment line = (searchFrom (directiveAt ''ai-ignore'') line \<noteq> None)"

text \<open>\<^verbatim>\<open>NO_ENHANCE_PATTERN.test(line)\<close>\<close>

definition hasNoEnhanceComment :: "string \<Rightarrow> bool" where
  "hasNoEnhanceComment line = (searchFrom (directiveAt ''no-enhance'') line \<noteq> None)"

definition extractStyleOverride :: "string \<Rightarrow> EnhancementMode option" where
  "extractStyleOverride text = map_option fst (searchFrom styleAt text)"

text \<open>The patterns with both anchors, used on a trimmed line.\<close>

definition isIgnoreLine :: "string \<Rightarrow> bool" where
  "isIgnoreLine trimmedLine = (directiveAt ''ai-ignore'' trimmedLine = Some [])"

definition isNoEnhanceLine :: "string \<Rightarrow> bool" where
  "isNoEnhanceLine trimmedLine = (directiveAt ''no-enhance'' trimmedLine = Some [])"

definition standaloneStyleMatch :: "string \<Rightarrow> EnhancementMode option" where
  "standaloneStyleMatch trimmedLine =
     (case styleAt trimmedLine of
        Some (m, r) \<Rightarrow> if r = [] then Some m else None
      | None \<Rightarrow> None)"

section \<open>Paragraph types (MarkdownProcessor.detectParagraphType)\<close>

text \<open>\<^verbatim>\<open>/\{\/\*\s*(ai-ignore|no-enhance|ai-style:)/i\<close>\<close>

definition ownDirectiveAt :: "string \<Rightarrow> unit option" where
  "ownDirectiveAt s =
     (case lit ''{/*'' s of
        None \<Rightarrow> None
      | Some r \<Rightarrow>
          (if litCI ''ai-ignore'' (skipWs r) \<noteq> None \<or> litCI ''no-enhance'' (skipWs r) \<noteq> None
              \<or> litCI ''ai-style:'' (skipWs r) \<noteq> None
           then Some () else None))"

definition hasOwnDirective :: "string \<Rightarrow> bool" where
  "hasOwnDirective s = (searchFrom ownDirectiveAt s \<noteq> None)"

text \<open>\<^verbatim>\<open>/^import\s+/\<close> and \<^verbatim>\<open>/^export\s+/\<close>\<close>

definition keywordThenWs :: "string \<Rightarrow> string \<Rightarrow> bool" where
  "keywordThenWs w s = (case lit w s of Some (c # cs) \<Rightarrow> isWs c | _ \<Rightarrow> False)"

text \<open>\<^verbatim>\<open>/^<[A-Z][a-zA-Z0-9]*(\s|\/|>)/\<close>\<close>

definition componentStart :: "string \<Rightarrow> bool" where
  "componentStart s =
     (case s of
        c0 # c1 # cs \<Rightarrow>
          c0 = CHR ''<'' \<and> isUpper c1 \<and>
          (case dropWhile isAlnum cs of
             [] \<Rightarrow> False
           | d # ds \<Rightarrow> isWs d \<or> d = CHR ''/'' \<or> d = CHR ''>'')
      | _ \<Rightarrow> False)"

text \<open>
  \<^verbatim>\<open>/^<[A-Z][a-zA-Z0-9]*[^>]*\/>$/\<close>: the name and the attributes are any characters
  other than the closing bracket, up to the final \<^verbatim>\<open>/>\<close>.
\<close>

definition selfClosing :: "string \<Rightarrow> bool" where
  "selfClosing s =
     (case s of
        c0 # c1 # cs \<Rightarrow>
          c0 = CHR ''<'' \<and> isUpper c1 \<and> endsWith cs ''/>''
          \<and> CHR ''>'' \<notin> set (take (length cs - 2) cs)
      | _ \<Rightarrow> False)"

text \<open>
  \<^verbatim>\<open>/^<[A-Z][a-zA-Z0-9]*[^>]*>.*<\/[A-Z][a-zA-Z0-9]*>$/s\<close>: the opening tag ends at the
  first closing bracket; the text after it ends with a closing tag, which is read from the
  end: the bracket, the longest run of letters and digits before it, which starts with a
  capital, and \<^verbatim>\<open></\<close> before that run.
\<close>

definition closingTagAtEnd :: "string \<Rightarrow> bool" where
  "closingTagAtEnd t =
     (case rev t of
        [] \<Rightarrow> False
      | c # r \<Rightarrow>
          c = CHR ''>'' \<and>
          (let name = rev (takeWhile isAlnum r); front = dropWhile isAlnum r
           in name \<noteq> [] \<and> isUpper (hd name) \<and> startsWith front ''/<''))"

definition componentBlock :: "string \<Rightarrow> bool" where
  "componentBlock s =
     (case s of
        c0 # c1 # cs \<Rightarrow>
          c0 = CHR ''<'' \<and> isUpper c1 \<and>
          (case dropWhile (\<lambda>c. c \<noteq> CHR ''>'') cs of
             [] \<Rightarrow> False
           | d # t \<Rightarrow> closingTagAtEnd t)
      | _ \<Rightarrow> False)"

text \<open>\<^verbatim>\<open>/^\{[^}]+\}$/\<close>\<close>

definition braceExpression :: "string \<Rightarrow> bool" where
  "braceExpression s =
     (case s of
        c0 # cs \<Rightarrow>
          c0 = CHR ''{'' \<and> 2 \<le> length cs \<and> last cs = CHR ''}''
          \<and> CHR ''}'' \<notin> set (butlast cs)
      | _ \<Rightarrow> False)"

text \<open>\<^verbatim>\<open>/^\{\/\*[\s\S]*\*\/\}$/\<close>\<close>

definition jsxComment :: "string \<Rightarrow> bool" where
  "jsxComment s = (case lit ''{/*'' s of Some r \<Rightarrow> endsWith r ''*/}'' | None \<Rightarrow> False)"

definition isMdxSyntax :: "string \<Rightarrow> bool" where
  "isMdxSyntax contentText =
     (let trimmed = trim contentText in
      if keywordThenWs ''import'' trimmed then True
      else if keywordThenWs ''export'' trimmed then True
      else if componentStart trimmed \<and> (selfClosing trimmed \<or> componentBlock trimmed) then True
      else if braceExpression trimmed \<and> \<not> hasOwnDirective trimmed then True
      else if jsxComment trimmed \<and> \<not> hasOwnDirective trimmed then True
      else False)"

text \<open>
  \<^verbatim>\<open>content.replace(/<[^>]+>/g, '')\<close>: at an opening bracket the match takes every
  character up to the next closing bracket, and needs at least one; without a match the
  bracket stays and the scan goes on behind it.
\<close>

function removeTags :: "string \<Rightarrow> string" where
  "removeTags [] = []"
| "removeTags (c # cs) =
     (if c = CHR ''<'' \<and> takeWhile (\<lambda>x. x \<noteq> CHR ''>'') cs \<noteq> []
         \<and> dropWhile (\<lambda>x. x \<noteq> CHR ''>'') cs \<noteq> []
      then removeTags (tl (dropWhile (\<lambda>x. x \<noteq> CHR ''>'') cs))
      else c # removeTags cs)"
  by pat_completeness auto
termination
proof (relation "measure length")
  fix c :: char and cs :: string
  have "length (tl (dropWhile (\<lambda>x. x \<noteq> CHR ''>'') cs)) \<le> length cs"
    using length_dropWhile_le[of "\<lambda>x. x \<noteq> CHR ''>''" cs] by simp
  then show "(tl (dropWhile (\<lambda>x. x \<noteq> CHR ''>'') cs), c # cs) \<in> measure length"
    by simp
qed simp_all

text \<open>
  The source compares \<^verbatim>\<open>withoutTags.length < content.length * 0.1\<close> in double
  precision. For lengths of strings the rounded product is the integer \<open>n div 10\<close>
  when 10 divides \<open>n\<close> and lies strictly between two integers otherwise, so the
  comparison is the one on integers below.
\<close>

definition isHtmlOnly :: "string \<Rightarrow> bool" where
  "isHtmlOnly contentText =
     (let withoutTags = trim (removeTags contentText) in
      if length withoutTags = 0 then True
      else
        let startsWithHtml =
              (case skipWs contentText of
                 c0 # c1 # cs \<Rightarrow> c0 = CHR ''<'' \<and> (isLower c1 \<or> isUpper c1)
               | _ \<Rightarrow> False)
        in if startsWithHtml \<and> 10 * length withoutTags < length contentText then True else False)"

text \<open>\<^verbatim>\<open>/^[\-\*\+]\s/\<close> or \<^verbatim>\<open>/^\d+\.\s/\<close>\<close>

definition listMarker :: "string \<Rightarrow> bool" where
  "listMarker firstLine =
     ((case firstLine of
         c0 # c1 # cs \<Rightarrow> (c0 = CHR ''-'' \<or> c0 = CHR ''*'' \<or> c0 = CHR ''+'') \<and> isWs c1
       | _ \<Rightarrow> False)
      \<or> (takeWhile isDigit firstLine \<noteq> [] \<and>
          (case dropWhile isDigit firstLine of
             c0 # c1 # cs \<Rightarrow> c0 = CHR ''.'' \<and> isWs c1
           | _ \<Rightarrow> False)))"

definition detectParagraphType :: "string list \<Rightarrow> ParagraphType" where
  "detectParagraphType lines =
     (if length lines = 0 then Empty
      else
        let firstLine = trim (hd lines);
            fullContent = trim (joinWith [CHR 0x0A] lines)
        in if isMdxSyntax fullContent then Mdx
           else if startsWith firstLine ''#'' then Heading
           else if listMarker firstLine then PList
           else if startsWith firstLine ''>'' then Quote
           else if startsWith firstLine ''```'' \<or> startsWith firstLine ''~~~'' then Code
           else if isHtmlOnly fullContent then Html
           else PText)"

section \<open>Segmentation (MarkdownProcessor.extractParagraphs)\<close>

text \<open>
  The local variables of \<^verbatim>\<open>extractParagraphs\<close> and the id counter of the processor.
  \<open>startLineVar\<close> is the variable \<^verbatim>\<open>startLine\<close>.
\<close>

record SegState =
  paragraphs :: "Paragraph list"
  currentParagraph :: "string list"
  startLineVar :: int
  inCodeBlock :: bool
  codeBlockDelimiter :: string
  ignoreNextParagraph :: bool
  noEnhanceNextParagraph :: bool
  styleOverrideNext :: "EnhancementMode option"
  inFrontmatter :: bool
  frontmatterStart :: int
  idCounter :: nat

text \<open>
  \<^verbatim>\<open>Date.now()\<close> is read once for each id; \<open>clock k\<close> is the time read when the id
  with counter \<open>k\<close> is made.
\<close>

type_synonym Clock = "nat \<Rightarrow> nat"

definition generateId :: "Clock \<Rightarrow> SegState \<Rightarrow> ParagraphId" where
  "generateId clock s = (clock (idCounter s), idCounter s)"

text \<open>
  The object pushed for an accumulated paragraph; the source writes it out at each of its
  five flushes, with the end line and the type as the only differences.
\<close>

definition accumulatedParagraph :: "Clock \<Rightarrow> SegState \<Rightarrow> int \<Rightarrow> ParagraphType \<Rightarrow> Paragraph" where
  "accumulatedParagraph clock s endL ty =
     (let paraContent = joinWith [CHR 0x0A] (currentParagraph s);
          shouldIgnore = (ignoreNextParagraph s \<or> hasAiIgnoreComment paraContent);
          shouldNoEnhance = (noEnhanceNextParagraph s \<or> hasNoEnhanceComment paraContent);
          inlineStyle = extractStyleOverride paraContent
      in \<lparr>content = paraContent, startLine = startLineVar s, endLine = endL, ptype = ty,
          pid = generateId clock s, ignore = shouldIgnore, noEnhance = shouldNoEnhance,
          styleOverride = (case styleOverrideNext s of Some m \<Rightarrow> Some m | None \<Rightarrow> inlineStyle)\<rparr>)"

definition pushParagraph :: "Paragraph \<Rightarrow> SegState \<Rightarrow> SegState" where
  "pushParagraph p s = s\<lparr>paragraphs := paragraphs s @ [p], idCounter := idCounter s + 1\<rparr>"

text \<open>\<^verbatim>\<open>if (paraContent.trim())\<close>\<close>

definition nonBlank :: "SegState \<Rightarrow> bool" where
  "nonBlank s = (trim (joinWith [CHR 0x0A] (currentParagraph s)) \<noteq> [])"

text \<open>\<^verbatim>\<open>currentParagraph.push(line)\<close>\<close>

definition pushLine :: "string \<Rightarrow> SegState \<Rightarrow> SegState" where
  "pushLine line s = s\<lparr>currentParagraph := currentParagraph s @ [line]\<rparr>"

text \<open>A standalone \<^verbatim>\<open>ai-ignore\<close> line.\<close>

definition onIgnoreLine :: "Clock \<Rightarrow> nat \<Rightarrow> SegState \<Rightarrow> SegState" where
  "onIgnoreLine clock i s =
     (let s1 =
        (if length (currentParagraph s) > 0 then
           (let s2 = (if nonBlank s
                      then pushParagraph (accumulatedParagraph clock s (int i - 1)
                             (detectParagraphType (currentParagraph s))) s
                      else s)
            in s2\<lparr>currentParagraph := [], noEnhanceNextParagraph := False,
                  styleOverrideNext := None\<rparr>)
         else s)
      in s1\<lparr>ignoreNextParagraph := True\<rparr>)"

text \<open>A standalone \<^verbatim>\<open>no-enhance\<close> line.\<close>

definition onNoEnhanceLine :: "Clock \<Rightarrow> nat \<Rightarrow> SegState \<Rightarrow> SegState" where
  "onNoEnhanceLine clock i s =
     (let s1 =
        (if length (currentParagraph s) > 0 then
           (let s2 = (if nonBlank s
                      then pushParagraph (accumulatedParagraph clock s (int i - 1)
                             (detectParagraphType (currentParagraph s))) s
                      else s)
            in s2\<lparr>currentParagraph := [], ignoreNextParagraph := False,
                  styleOverrideNext := None\<rparr>)
         else s)
      in s1\<lparr>noEnhanceNextParagraph := True\<rparr>)"

text \<open>
  The flush at the start of a code block and at an empty line: the pending flags are
  cleared only when a paragraph is pushed.
\<close>

definition flushAccumulated :: "Clock \<Rightarrow> nat \<Rightarrow> SegState \<Rightarrow> SegState" where
  "flushAccumulated clock i s =
     (if length (currentParagraph s) > 0 then
        (let s1 = (if nonBlank s
                   then (pushParagraph (accumulatedParagraph clock s (int i - 1)
                           (detectParagraphType (currentParagraph s))) s)
                        \<lparr>ignoreNextParagraph := False, noEnhanceNextParagraph := False,
                         styleOverrideNext := None\<rparr>
                   else s)
         in s1\<lparr>currentParagraph := []\<rparr>)
      else s)"

text \<open>A line that starts with a fence.\<close>

definition onFenceLine :: "Clock \<Rightarrow> nat \<Rightarrow> string \<Rightarrow> string \<Rightarrow> SegState \<Rightarrow> SegState" where
  "onFenceLine clock i line trimmedLine s =
     (if \<not> inCodeBlock s then
        (flushAccumulated clock i s)
          \<lparr>inCodeBlock := True,
           codeBlockDelimiter := (if startsWith trimmedLine ''```'' then ''```'' else ''~~~''),
           currentParagraph := [line],
           startLineVar := int i\<rparr>
      else if startsWith trimmedLine (codeBlockDelimiter s) then
        (pushParagraph
           \<lparr>content = joinWith [CHR 0x0A] (currentParagraph s @ [line]),
            startLine = startLineVar s, endLine = int i, ptype = Code,
            pid = generateId clock s, ignore = True, noEnhance = False,
            styleOverride = None\<rparr> s)
          \<lparr>currentParagraph := [], inCodeBlock := False, codeBlockDelimiter := [],
           ignoreNextParagraph := False, noEnhanceNextParagraph := False,
           styleOverrideNext := None\<rparr>
      else pushLine line s)"

text \<open>\<^verbatim>\<open>// Handle YAML frontmatter (must start at line 0)\<close>\<close>

definition beginFrontmatter :: "string \<Rightarrow> SegState \<Rightarrow> SegState" where
  "beginFrontmatter line s =
     s\<lparr>inFrontmatter := True, frontmatterStart := 0, currentParagraph := [line]\<rparr>"

text \<open>\<^verbatim>\<open>// Check for frontmatter end\<close>\<close>

definition endFrontmatter :: "Clock \<Rightarrow> nat \<Rightarrow> string \<Rightarrow> SegState \<Rightarrow> SegState" where
  "endFrontmatter clock i line s =
     (pushParagraph
        \<lparr>content = joinWith [CHR 0x0A] (currentParagraph s @ [line]),
         startLine = frontmatterStart s, endLine = int i, ptype = Frontmatter,
         pid = generateId clock s, ignore = True, noEnhance = False,
         styleOverride = None\<rparr> s)
       \<lparr>currentParagraph := [], inFrontmatter := False, frontmatterStart := - 1\<rparr>"

text \<open>\<^verbatim>\<open>// Start of new paragraph\<close>, and the push of the line\<close>

definition onTextLine :: "nat \<Rightarrow> string \<Rightarrow> SegState \<Rightarrow> SegState" where
  "onTextLine i line s =
     (let s1 = (if length (currentParagraph s) = 0 then s\<lparr>startLineVar := int i\<rparr> else s)
      in pushLine line s1)"

text \<open>The body of the loop over the lines, for line \<open>i\<close>.\<close>

definition segStep :: "Clock \<Rightarrow> nat \<Rightarrow> string \<Rightarrow> SegState \<Rightarrow> SegState" where
  "segStep clock i line s =
     (let trimmedLine = trim line in
      if i = 0 \<and> trimmedLine = ''---'' then beginFrontmatter line s
      else if inFrontmatter s \<and> trimmedLine = ''---'' then endFrontmatter clock i line s
      else if inFrontmatter s then pushLine line s
      else if isIgnoreLine trimmedLine then onIgnoreLine clock i s
      else if isNoEnhanceLine trimmedLine then onNoEnhanceLine clock i s
      else if standaloneStyleMatch trimmedLine \<noteq> None then
        s\<lparr>styleOverrideNext := standaloneStyleMatch trimmedLine\<rparr>
      else if startsWith trimmedLine ''```'' \<or> startsWith trimmedLine ''~~~'' then
        onFenceLine clock i line trimmedLine s
      else if inCodeBlock s then pushLine line s
      else if trimmedLine = [] then flushAccumulated clock i s
      else onTextLine i line s)"

fun segLoop :: "Clock \<Rightarrow> nat \<Rightarrow> string list \<Rightarrow> SegState \<Rightarrow> SegState" where
  "segLoop clock i [] s = s"
| "segLoop clock i (line # rest) s = segLoop clock (Suc i) rest (segStep clock i line s)"

text \<open>\<^verbatim>\<open>// Handle any remaining content\<close>\<close>

definition finalFlush :: "Clock \<Rightarrow> nat \<Rightarrow> SegState \<Rightarrow> SegState" where
  "finalFlush clock n s =
     (if length (currentParagraph s) > 0 \<and> nonBlank s then
        pushParagraph (accumulatedParagraph clock s (int n - 1)
          (if inCodeBlock s then Code else detectParagraphType (currentParagraph s))) s
      else s)"

definition initialSegState :: "nat \<Rightarrow> SegState" where
  "initialSegState idc =
     \<lparr>paragraphs = [], currentParagraph = [], startLineVar = 0, inCodeBlock = False,
      codeBlockDelimiter = [], ignoreNextParagraph = False, noEnhanceNextParagraph = False,
      styleOverrideNext = None, inFrontmatter = False, frontmatterStart = - 1,
      idCounter = idc\<rparr>"

text \<open>
  \<open>segment\<close> is \<^verbatim>\<open>extractParagraphs\<close> with the state it ends in: the processor that
  starts at counter \<open>idc\<close> returns the paragraphs and keeps the new counter.
\<close>

definition segment :: "Clock \<Rightarrow> nat \<Rightarrow> string \<Rightarrow> SegState" where
  "segment clock idc contentText =
     (let lines = splitLines contentText
      in finalFlush clock (length lines) (segLoop clock 0 lines (initialSegState idc)))"

definition extractParagraphs :: "Clock \<Rightarrow> nat \<Rightarrow> string \<Rightarrow> Paragraph list" where
  "extractParagraphs clock idc contentText = paragraphs (segment clock idc contentText)"

section \<open>Change detection (MarkdownProcessor.findChangedParagraphs)\<close>

record Changes =
  added :: "Paragraph list"
  modified :: "Paragraph list"
  removed :: "Paragraph list"

definition paraKey :: "Paragraph \<Rightarrow> string" where
  "paraKey p = showInt (startLine p) @ '':'' @ content p"

definition keyMap :: "Paragraph list \<Rightarrow> (string \<rightharpoonup> Paragraph)" where
  "keyMap ps = fold (\<lambda>p m. m(paraKey p \<mapsto> p)) ps Map.empty"

definition nearLine :: "Paragraph \<Rightarrow> Paragraph \<Rightarrow> bool" where
  "nearLine a b = (\<bar>startLine a - startLine b\<bar> \<le> 2)"

definition classifyNew ::
  "Paragraph list \<Rightarrow> (string \<rightharpoonup> Paragraph) \<Rightarrow> Paragraph \<Rightarrow> Changes \<Rightarrow> Changes" where
  "classifyNew oldParagraphs oldContents p result =
     (if oldContents (paraKey p) = None then
        (case List.find (\<lambda>old. nearLine old p) oldParagraphs of
           Some oldAtPosition \<Rightarrow>
             if content oldAtPosition \<noteq> content p
             then result\<lparr>modified := modified result @ [p]\<rparr>
             else result\<lparr>added := added result @ [p]\<rparr>
         | None \<Rightarrow> result\<lparr>added := added result @ [p]\<rparr>)
      else result)"

definition classifyOld ::
  "Paragraph list \<Rightarrow> (string \<rightharpoonup> Paragraph) \<Rightarrow> Paragraph \<Rightarrow> Changes \<Rightarrow> Changes" where
  "classifyOld newParagraphs newContents p result =
     (if newContents (paraKey p) = None then
        (if list_ex (\<lambda>np. nearLine np p) newParagraphs then result
         else result\<lparr>removed := removed result @ [p]\<rparr>)
      else result)"

definition findChangedParagraphs :: "Paragraph list \<Rightarrow> Paragraph list \<Rightarrow> Changes" where
  "findChangedParagraphs oldParagraphs newParagraphs =
     (let result0 = \<lparr>added = [], modified = [], removed = []\<rparr>;
          oldContents = keyMap oldParagraphs;
          newContents = keyMap newParagraphs;
          result1 = fold (classifyNew oldParagraphs oldContents) newParagraphs result0
      in fold (classifyOld newParagraphs newContents) oldParagraphs result1)"

section \<open>Context window (MarkdownProcessor.buildContext)\<close>

definition buildContext :: "Paragraph list \<Rightarrow> int \<Rightarrow> int \<Rightarrow> string" where
  "buildContext paras currentIndex windowSize =
     (if currentIndex \<le> 0 \<or> windowSize \<le> 0 then []
      else let startIndex = max 0 (currentIndex - windowSize);
               contextParagraphs = jsSlice paras startIndex currentIndex
           in joinWith [CHR 0x0A, CHR 0x0A] (map content contextParagraphs))"

section \<open>Fingerprints (hashContent)\<close>

text \<open>
  The hash is a 32-bit integer: \<^verbatim>\<open>hash & hash\<close> brings the sum back into that range after
  each character, and \<^verbatim>\<open>toString(16)\<close> writes a negative value with a minus sign.
\<close>

fun showHexNat :: "nat \<Rightarrow> string" where
  "showHexNat n = (if n < 16 then [digitChar n] else showHexNat (n div 16) @ [digitChar (n mod 16)])"

declare showHexNat.simps [simp del]

definition showHexInt :: "int \<Rightarrow> string" where
  "showHexInt k = (if k < 0 then CHR ''-'' # showHexNat (nat (- k)) else showHexNat (nat k))"

definition hashChar :: "32 word \<Rightarrow> char \<Rightarrow> 32 word" where
  "hashChar hash c = (push_bit 5 hash - hash) + of_nat (of_char c)"

definition hashContent :: "string \<Rightarrow> string" where
  "hashContent contentText =
     ''h'' @ showHexInt (sint (fold (\<lambda>c hash. hashChar hash c) contentText 0))
       @ ''_'' @ showNat (length contentText)"

section \<open>Data model of the orchestrator (types.ts, extension.ts)\<close>

datatype SuggestionCategory = Improvement | Gap | Idea

record Suggestion =
  category :: SuggestionCategory
  title :: string
  description :: string
  examples :: "string list option"
  paragraphIndex :: "int option"

datatype EnhancementStatus = Pending | Processing | Complete | Error

record EnhancedParagraph =
  original :: Paragraph
  enhanced :: string
  status :: EnhancementStatus
  error :: "string option"
  appliedStyle :: "EnhancementMode option"
  kept :: "bool option"
  suggestions :: "Suggestion list option"

record EnhancementRequest =
  reqParagraph :: string
  reqContext :: string
  reqMode :: EnhancementMode
  reqDocumentTitle :: "string option"
  reqAuthorStyleSample :: "string option"
  reqAudience :: "string option"
  reqParagraphType :: "ParagraphType option"

text \<open>The fields of the response that the extension reads.\<close>

record EnhancementResponse =
  responseEnhanced :: string
  responseSuggestions :: "Suggestion list option"

record EnhancementSettings =
  enhancementMode :: EnhancementMode
  contextWindowSize :: int
  debounceDelay :: int
  autoEnhance :: bool
  preferredModelFamily :: string
  authorStyleSample :: string
  audience :: string
  showConsiderPanel :: bool
  fileExtensions :: "string list"

text \<open>An entry of \<^verbatim>\<open>enhancedCache\<close>.\<close>

record CacheEntry =
  cachedEnhanced :: string
  cachedSuggestions :: "Suggestion list option"

text \<open>
  The external enhancement service. A call either returns a response or throws; what is
  thrown is an \<^verbatim>\<open>Error\<close> with a message, or something else. The service is a function
  of the arguments of \<^verbatim>\<open>aiService.enhance\<close>: the request, the paragraph id and the flag
  for suggestions. Each call of a pass carries another paragraph id, so this lets the
  outcome of every call be chosen freely.
\<close>

datatype ServiceOutcome = Responds EnhancementResponse | Throws "string option"

type_synonym Service = "EnhancementRequest \<Rightarrow> ParagraphId \<Rightarrow> bool \<Rightarrow> ServiceOutcome"

text \<open>
  What a pass takes from its surroundings: the service, the clock, the cancellation token
  (\<open>cancelRequested i\<close> is \<^verbatim>\<open>token.isCancellationRequested\<close> as read at the top of
  iteration \<open>i\<close>), the settings read at the start of the pass, and the title that the
  context manager holds for the document.
\<close>

record Env =
  service :: Service
  clock :: Clock
  cancelRequested :: "nat \<Rightarrow> bool"
  settings :: EnhancementSettings
  docTitle :: string

text \<open>
  The module-level variables of the extension, and a record of what it did to the outside:
  \<open>serviceCalls\<close> lists the calls of \<^verbatim>\<open>aiService.enhance\<close> (request and paragraph id),
  \<open>editRequests\<close> the calls of \<^verbatim>\<open>editor.edit\<close> (start line, end line, replacement
  text) and \<open>errorMessages\<close> the calls of \<^verbatim>\<open>showErrorMessage\<close>. \<open>panelOpen\<close> says that
  \<^verbatim>\<open>EnhancementPanel.currentPanel\<close> is defined; what is published to the panel is not
  recorded.
\<close>

record ExtState =
  enhancedCache :: "string \<rightharpoonup> CacheEntry"
  appliedStyleCache :: "string \<rightharpoonup> EnhancementMode"
  keptParagraphsCache :: "string \<rightharpoonup> bool"
  currentParagraphs :: "Paragraph list"
  currentEnhancedParagraphs :: "EnhancedParagraph list"
  panelOpen :: bool
  processorIdCounter :: nat
  serviceCalls :: "(EnhancementRequest \<times> ParagraphId) list"
  editRequests :: "(int \<times> int \<times> string) list"
  errorMessages :: "string list"

section \<open>The pass over a document (processDocument)\<close>

text \<open>The callback of \<^verbatim>\<open>newParagraphs.map\<close>: the initial state of a paragraph.\<close>

definition initialEnhanced :: "ExtState \<Rightarrow> bool \<Rightarrow> Changes \<Rightarrow> Paragraph \<Rightarrow> EnhancedParagraph" where
  "initialEnhanced st forceRefresh changes p =
     (let contentHash = hashContent (trim (content p));
          persistedStyle = appliedStyleCache st contentHash;
          isKept = (keptParagraphsCache st contentHash = Some True)
      in if isKept then
           \<lparr>original = p, enhanced = content p, status = Complete, error = None,
            appliedStyle = persistedStyle, kept = Some True, suggestions = None\<rparr>
         else
           (case (if \<not> forceRefresh then enhancedCache st contentHash else None) of
              Some cached \<Rightarrow>
                \<lparr>original = p, enhanced = cachedEnhanced cached, status = Complete, error = None,
                 appliedStyle = persistedStyle, kept = None,
                 suggestions = cachedSuggestions cached\<rparr>
            | None \<Rightarrow>
                (let needsProcessing =
                       (forceRefresh \<or> List.member (added changes) p
                        \<or> list_ex (\<lambda>m. startLine m = startLine p) (modified changes)
                        \<or> enhancedCache st contentHash = None)
                 in if needsProcessing then
                      \<lparr>original = p, enhanced = content p, status = Pending, error = None,
                       appliedStyle = persistedStyle, kept = None, suggestions = None\<rparr>
                    else
                      \<lparr>original = p, enhanced = content p, status = Complete, error = None,
                       appliedStyle = persistedStyle, kept = None, suggestions = None\<rparr>)))"

text \<open>\<^verbatim>\<open>s || undefined\<close> on a string\<close>

definition orUndefined :: "string \<Rightarrow> string option" where
  "orUndefined s = (if s = [] then None else Some s)"

text \<open>The paragraphs that the loop completes without a request.\<close>

definition skipsEnhancement :: "Paragraph \<Rightarrow> bool" where
  "skipsEnhancement p = (ptype p = Code \<or> ptype p = Mdx \<or> ignore p \<or> noEnhance p)"

definition effectiveMode :: "Env \<Rightarrow> Paragraph \<Rightarrow> EnhancementMode" where
  "effectiveMode env p =
     (case styleOverride p of Some m \<Rightarrow> m | None \<Rightarrow> enhancementMode (settings env))"

text \<open>The request for the paragraph at index \<open>i\<close>.\<close>

definition requestFor :: "Env \<Rightarrow> Paragraph list \<Rightarrow> nat \<Rightarrow> Paragraph \<Rightarrow> EnhancementRequest" where
  "requestFor env newParagraphs i p =
     \<lparr>reqParagraph = content p,
      reqContext = buildContext newParagraphs (int i) (contextWindowSize (settings env)),
      reqMode = effectiveMode env p,
      reqDocumentTitle = Some (docTitle env),
      reqAuthorStyleSample = orUndefined (authorStyleSample (settings env)),
      reqAudience = orUndefined (audience (settings env)),
      reqParagraphType = Some (ptype p)\<rparr>"

text \<open>
  The body of the loop for index \<open>i\<close>, below the check of the token. The status
  \<open>Processing\<close> that the source sets before the request is overwritten in every branch
  before the body ends.
\<close>

definition enhanceStep :: "Env \<Rightarrow> Paragraph list \<Rightarrow> nat \<Rightarrow> ExtState \<Rightarrow> ExtState" where
  "enhanceStep env newParagraphs i st =
     (let e = currentEnhancedParagraphs st ! i in
      if status e \<noteq> Pending then st
      else if skipsEnhancement (original e) then
        st\<lparr>currentEnhancedParagraphs := (currentEnhancedParagraphs st)[i := e\<lparr>status := Complete\<rparr>]\<rparr>
      else
        (let request = requestFor env newParagraphs i (original e);
             call = (request, pid (original e))
         in case service env request (pid (original e)) (showConsiderPanel (settings env)) of
              Responds response \<Rightarrow>
                (let contentHash = hashContent (trim (content (original e)));
                     e' = e\<lparr>enhanced := responseEnhanced response, status := Complete,
                            appliedStyle := Some (effectiveMode env (original e)),
                            suggestions :=
                              (case responseSuggestions response of
                                 Some (x # xs) \<Rightarrow> Some (x # xs)
                               | _ \<Rightarrow> suggestions e)\<rparr>
                 in st\<lparr>currentEnhancedParagraphs := (currentEnhancedParagraphs st)[i := e'],
                       enhancedCache := (enhancedCache st)(contentHash \<mapsto>
                          \<lparr>cachedEnhanced = responseEnhanced response,
                           cachedSuggestions = responseSuggestions response\<rparr>),
                       appliedStyleCache := (appliedStyleCache st)(contentHash \<mapsto>
                          effectiveMode env (original e)),
                       serviceCalls := serviceCalls st @ [call]\<rparr>)
            | Throws thrown \<Rightarrow>
                (let e' = e\<lparr>status := Error,
                            error := Some (case thrown of Some message \<Rightarrow> message
                                           | None \<Rightarrow> ''Unknown error'')\<rparr>
                 in st\<lparr>currentEnhancedParagraphs := (currentEnhancedParagraphs st)[i := e'],
                       serviceCalls := serviceCalls st @ [call]\<rparr>)))"

text \<open>
  \<^verbatim>\<open>for (let i = 0; i < enhancedParagraphs.length; i++)\<close>, from index \<open>i\<close> with \<open>k\<close>
  indices left; a cancelled token ends the loop.
\<close>

fun enhanceLoop :: "Env \<Rightarrow> Paragraph list \<Rightarrow> nat \<Rightarrow> nat \<Rightarrow> ExtState \<Rightarrow> ExtState" where
  "enhanceLoop env newParagraphs i 0 st = st"
| "enhanceLoop env newParagraphs i (Suc k) st =
     (if cancelRequested env i then st
      else enhanceLoop env newParagraphs (Suc i) k (enhanceStep env newParagraphs i st))"

definition processDocument :: "Env \<Rightarrow> string \<Rightarrow> bool \<Rightarrow> ExtState \<Rightarrow> ExtState" where
  "processDocument env documentText forceRefresh st =
     (if \<not> panelOpen st then st
      else
        (let seg = segment (clock env) (processorIdCounter st) documentText;
             newParagraphs = paragraphs seg;
             changes = findChangedParagraphs (currentParagraphs st) newParagraphs;
             enhancedParagraphs = map (initialEnhanced st forceRefresh changes) newParagraphs;
             st1 = st\<lparr>processorIdCounter := idCounter seg,
                      currentParagraphs := newParagraphs,
                      currentEnhancedParagraphs := enhancedParagraphs\<rparr>;
             pendingParagraphs = filter (\<lambda>p. status p = Pending) enhancedParagraphs
         in if length pendingParagraphs = 0 then st1
            else enhanceLoop env newParagraphs 0 (length enhancedParagraphs) st1))"

section \<open>Keeping a paragraph (keepParagraph)\<close>

text \<open>
  \<^verbatim>\<open>enhancedText.split(/\n\n+/)\<close>: a separator is a longest run of two or more line feeds.
\<close>

function splitBlankLines :: "string \<Rightarrow> string list" where
  "splitBlankLines [] = [[]]"
| "splitBlankLines (c # cs) =
     (if c = CHR 0x0A \<and> cs \<noteq> [] \<and> hd cs = CHR 0x0A
      then [] # splitBlankLines (dropWhile (\<lambda>x. x = CHR 0x0A) cs)
      else (case splitBlankLines cs of
              piece # pieces \<Rightarrow> (c # piece) # pieces
            | [] \<Rightarrow> [[c]]))"
  by pat_completeness auto
termination
  by (relation "measure length") (auto simp: less_Suc_eq_le length_dropWhile_le)

definition replacementText :: "string \<Rightarrow> string \<Rightarrow> string" where
  "replacementText noEnhanceComment enhancedText =
     joinWith [CHR 0x0A]
       (map (\<lambda>p. noEnhanceComment @ [CHR 0x0A] @ p)
          (filter (\<lambda>p. length p > 0) (map trim (splitBlankLines enhancedText))))"

text \<open>
  The editor that \<^verbatim>\<open>getTrackedEditor()\<close> returns, and what \<^verbatim>\<open>editor.edit\<close> does with
  a replacement: it resolves to true or to false, or it rejects.
\<close>

record TextEditor =
  fileName :: string
  documentLines :: "string list"

datatype EditOutcome = EditApplied | EditRefused | EditRejects

type_synonym Edit = "TextEditor \<Rightarrow> int \<Rightarrow> int \<Rightarrow> string \<Rightarrow> EditOutcome"

definition noEnhanceCommentFor :: "TextEditor \<Rightarrow> string" where
  "noEnhanceCommentFor editor =
     (let isMdxFile = endsWith (map toLower (fileName editor)) ''.mdx''
      in if isMdxFile then ''{/* no-enhance */}'' else ''<!-- no-enhance -->'')"

text \<open>\<^verbatim>\<open>findIndex\<close>\<close>

fun findIndexFrom :: "('a \<Rightarrow> bool) \<Rightarrow> nat \<Rightarrow> 'a list \<Rightarrow> nat option" where
  "findIndexFrom P i [] = None"
| "findIndexFrom P i (x # xs) = (if P x then Some i else findIndexFrom P (Suc i) xs)"

text \<open>
  The body of \<^verbatim>\<open>try\<close>: \<^verbatim>\<open>new vscode.Position\<close> throws on a negative line and
  \<^verbatim>\<open>lineAt\<close> on a line outside the document; a rejected edit throws as well. Each of
  them ends in the \<^verbatim>\<open>catch\<close>, which shows the error message. The result of an edit that
  resolves is not read.
\<close>

definition keepParagraph :: "Edit \<Rightarrow> TextEditor option \<Rightarrow> ParagraphId \<Rightarrow> ExtState \<Rightarrow> ExtState" where
  "keepParagraph edit tracked paragraphId st =
     (case findIndexFrom (\<lambda>p. pid (original p) = paragraphId) 0 (currentEnhancedParagraphs st) of
        None \<Rightarrow> st
      | Some index \<Rightarrow>
          (case tracked of
             None \<Rightarrow> st
           | Some editor \<Rightarrow>
               (let p = currentEnhancedParagraphs st ! index;
                    enhancedText = (if enhanced p \<noteq> [] then enhanced p else content (original p));
                    text = replacementText (noEnhanceCommentFor editor) enhancedText;
                    startL = startLine (original p);
                    endL = endLine (original p);
                    failed = st\<lparr>errorMessages := errorMessages st
                                @ [''Failed to write kept paragraph to source'']\<rparr>
                in if startL < 0 \<or> endL < 0 \<or> int (length (documentLines editor)) \<le> endL
                   then failed
                   else
                     (let st1 = st\<lparr>editRequests := editRequests st @ [(startL, endL, text)]\<rparr>
                      in case edit editor startL endL text of
                           EditRejects \<Rightarrow>
                             st1\<lparr>errorMessages := errorMessages st1
                                   @ [''Failed to write kept paragraph to source'']\<rparr>
                         | _ \<Rightarrow>
                             st1\<lparr>currentEnhancedParagraphs :=
                                    (currentEnhancedParagraphs st1)
                                      [index := p\<lparr>kept := Some True, suggestions := Some []\<rparr>],
                                  keptParagraphsCache :=
                                    (keptParagraphsCache st1)
                                      (hashContent (trim (content (original p))) \<mapsto> True)\<rparr>))))"

section \<open>Notions used in the statements\<close>





text \<open>A one-line text paragraph, for the examples.\<close>

definition para :: "int \<Rightarrow> string \<Rightarrow> Paragraph" where
  "para l c = \<lparr>content = c, startLine = l, endLine = l, ptype = PText, pid = (0, 0),
      ignore = False, noEnhance = False, styleOverride = None\<rparr>"

text \<open>Two line feeds in a row somewhere in a text.\<close>

fun hasBlankLine :: "string \<Rightarrow> bool" where
  "hasBlankLine (c # d # cs) = ((c = CHR 0x0A \<and> d = CHR 0x0A) \<or> hasBlankLine (d # cs))"
| "hasBlankLine cs = False"

text \<open>
  A block of text: not empty, no white space at either end, and no blank line inside.
\<close>

definition isBlock :: "string \<Rightarrow> bool" where
  "isBlock b = (b \<noteq> [] \<and> \<not> isWs (hd b) \<and> \<not> isWs (last b) \<and> \<not> hasBlankLine b)"

text \<open>The text that \<^verbatim>\<open>keepParagraph\<close> works on: \<^verbatim>\<open>para.enhanced || para.original.content\<close>.\<close>

definition keptText :: "EnhancedParagraph \<Rightarrow> string" where
  "keptText p = (if enhanced p \<noteq> [] then enhanced p else content (original p))"

text \<open>The target of the write-back is stale: a line of its range is not in the document.\<close>

definition staleRange :: "TextEditor \<Rightarrow> EnhancedParagraph \<Rightarrow> bool" where
  "staleRange editor p =
     (startLine (original p) < 0 \<or> endLine (original p) < 0
      \<or> int (length (documentLines editor)) \<le> endLine (original p))"

text \<open>An enhanced paragraph and a state, for the examples.\<close>

definition enhancedPara :: "Paragraph \<Rightarrow> string \<Rightarrow> EnhancedParagraph" where
  "enhancedPara p t = \<lparr>original = p, enhanced = t, status = Complete, error = None,
      appliedStyle = None, kept = None, suggestions = None\<rparr>"

definition emptyState :: ExtState where
  "emptyState = \<lparr>enhancedCache = Map.empty, appliedStyleCache = Map.empty,
      keptParagraphsCache = Map.empty, currentParagraphs = [], currentEnhancedParagraphs = [],
      panelOpen = True, processorIdCounter = 0, serviceCalls = [], editRequests = [],
      errorMessages = []\<rparr>"

text \<open>Editors and an edit function for the examples.\<close>

definition mdEditor :: "nat \<Rightarrow> TextEditor" where
  "mdEditor n = \<lparr>fileName = ''notes.md'', documentLines = replicate n ''text''\<rparr>"

definition mdxEditor :: "nat \<Rightarrow> TextEditor" where
  "mdxEditor n = \<lparr>fileName = ''Page.MDX'', documentLines = replicate n ''text''\<rparr>"

definition alwaysApplied :: Edit where
  "alwaysApplied editor startL endL text = EditApplied"

definition keepMessage :: string where
  "keepMessage = ''Failed to write kept paragraph to source''"

text \<open>
  The ids of the paragraphs pushed so far are the counter values from \<open>c0\<close> on, each with
  the time read for it.
\<close>

definition idsFrom :: "Clock \<Rightarrow> nat \<Rightarrow> SegState \<Rightarrow> bool" where
  "idsFrom clk c0 s =
     (c0 \<le> idCounter s \<and> map pid (paragraphs s) = map (\<lambda>k. (clk k, k)) [c0 ..< idCounter s])"









text \<open>
  What holds of the state before line \<open>i\<close>, for every document: the spans pushed so far
  lie before line \<open>i\<close> with ascending end lines, and an accumulation in progress started
  before line \<open>i\<close> and after the line that follows the last span.
\<close>

definition spanInv :: "nat \<Rightarrow> SegState \<Rightarrow> bool" where
  "spanInv i s =
     ((\<forall>p \<in> set (paragraphs s). 0 \<le> startLine p \<and> startLine p \<le> endLine p \<and> endLine p < int i)
      \<and> sorted_wrt (\<lambda>p q. endLine p < endLine q) (paragraphs s)
      \<and> 0 \<le> startLineVar s \<and> startLineVar s \<le> int i
      \<and> (currentParagraph s \<noteq> [] \<longrightarrow>
            startLineVar s < int i \<and> (\<forall>p \<in> set (paragraphs s). endLine p + 1 < int i))
      \<and> (inFrontmatter s \<longrightarrow> frontmatterStart s = 0))"



text \<open>
  Settings with the defaults of \<^verbatim>\<open>getSettings\<close>, and surroundings for the examples: a
  service that answers every request, one that fails for the paragraph with a given
  counter and answers the others, and a token that is never cancelled.
\<close>

definition defaultSettings :: EnhancementSettings where
  "defaultSettings = \<lparr>enhancementMode = Expand, contextWindowSize = 2, debounceDelay = 20000,
      autoEnhance = True, preferredModelFamily = [], authorStyleSample = [], audience = [],
      showConsiderPanel = True, fileExtensions = [''md'', ''mdx'']\<rparr>"

definition answering :: Service where
  "answering request paragraphId includeSuggestions =
     Responds \<lparr>responseEnhanced = ''Better: '' @ reqParagraph request,
               responseSuggestions = None\<rparr>"


definition envWith :: "Service \<Rightarrow> Env" where
  "envWith svc = \<lparr>service = svc, clock = (\<lambda>k. 1000), cancelRequested = (\<lambda>i. False),
      settings = defaultSettings, docTitle = ''Doc''\<rparr>"

text \<open>
  A state whose kept-set holds the fingerprint of \<^verbatim>\<open>Hello\<close>, with the panel open and
  with no panel.
\<close>

definition keptHello :: ExtState where
  "keptHello = emptyState\<lparr>keptParagraphsCache := [hashContent (trim ''Hello'') \<mapsto> True]\<rparr>"

definition closedPanel :: ExtState where
  "closedPanel = keptHello\<lparr>panelOpen := False\<rparr>"

text \<open>
  A paragraph without its id, and a segmentation state without the ids it gave and its
  counter: what two segmentations of the same text have in common.
\<close>

definition withoutId :: "Paragraph \<Rightarrow> Paragraph" where
  "withoutId p = p\<lparr>pid := (0, 0)\<rparr>"

definition eraseIds :: "SegState \<Rightarrow> SegState" where
  "eraseIds s = s\<lparr>paragraphs := map withoutId (paragraphs s), idCounter := 0\<rparr>"

text \<open>The fingerprint under which the caches and the kept-set file a paragraph.\<close>

definition fingerprint :: "Paragraph \<Rightarrow> string" where
  "fingerprint p = hashContent (trim (content p))"

text \<open>
  A paragraph for which a pass without refresh asks nothing of the service: it is skipped
  by the loop, kept, or in the cache of enhanced texts.
\<close>

definition settled :: "ExtState \<Rightarrow> Paragraph \<Rightarrow> bool" where
  "settled st p =
     (skipsEnhancement p \<or> keptParagraphsCache st (fingerprint p) = Some True
      \<or> enhancedCache st (fingerprint p) \<noteq> None)"

definition settledInv :: "ExtState \<Rightarrow> bool" where
  "settledInv st =
     (\<forall>e \<in> set (currentEnhancedParagraphs st). status e = Complete \<longrightarrow> settled st (original e))"

text \<open>
  The entry with which a pass without refresh starts for a paragraph, in a given state of
  the caches.
\<close>

definition noChanges :: Changes where
  "noChanges = \<lparr>added = [], modified = [], removed = []\<rparr>"

definition replay :: "ExtState \<Rightarrow> Paragraph \<Rightarrow> EnhancedParagraph" where
  "replay st p = initialEnhanced st False noChanges p"

text \<open>
  Two entries with the same result: the same enhanced text, error, applied style and kept
  flag, and the same suggestions, but that an entry without suggestions may face one with
  the empty list (the cache stores the list of the response as it came, the entry takes it
  only when it is not empty).
\<close>

definition sameSuggestions :: "Suggestion list option \<Rightarrow> Suggestion list option \<Rightarrow> bool" where
  "sameSuggestions a b = (b = a \<or> (a = None \<and> b = Some []))"

definition sameResult :: "EnhancedParagraph \<Rightarrow> EnhancedParagraph \<Rightarrow> bool" where
  "sameResult e1 e2 =
     (enhanced e2 = enhanced e1 \<and> error e2 = error e1 \<and> appliedStyle e2 = appliedStyle e1
      \<and> kept e2 = kept e1 \<and> sameSuggestions (suggestions e1) (suggestions e2))"

text \<open>
  What holds of the entries during a pass without refresh over paragraphs with distinct
  fingerprints: a pending entry is the one a pass would start with now, and a complete
  entry has the result of the one a pass would start with now.
\<close>

definition replayInv :: "ExtState \<Rightarrow> bool" where
  "replayInv st =
     (\<forall>e \<in> set (currentEnhancedParagraphs st).
        (status e = Pending \<longrightarrow> e = replay st (original e))
        \<and> (status e = Complete \<longrightarrow> sameResult e (replay st (original e))))"

text \<open>
  A pass that asks nothing of the service: from \<open>st\<close> to \<open>st'\<close> only entries change, and
  only from pending to complete.
\<close>

definition onlyCompletes :: "ExtState \<Rightarrow> ExtState \<Rightarrow> bool" where
  "onlyCompletes st st' =
     (st'\<lparr>currentEnhancedParagraphs := []\<rparr> = st\<lparr>currentEnhancedParagraphs := []\<rparr>
      \<and> length (currentEnhancedParagraphs st') = length (currentEnhancedParagraphs st)
      \<and> (\<forall>j < length (currentEnhancedParagraphs st).
            currentEnhancedParagraphs st' ! j = currentEnhancedParagraphs st ! j
            \<or> (status (currentEnhancedParagraphs st ! j) = Pending
                \<and> currentEnhancedParagraphs st' ! j
                    = (currentEnhancedParagraphs st ! j)\<lparr>status := Complete\<rparr>)))"

section \<open>Properties of the change detection\<close>












lemma keyMap_fold: "fold (\<lambda>p m. m(paraKey p \<mapsto> p)) ps m0 k = None \<longleftrightarrow> (m0 k = None \<and> k \<notin> paraKey ` set ps)"
  by (induction ps arbitrary: m0) auto

lemma keyMap_None: "keyMap ps k = None \<longleftrightarrow> k \<notin> paraKey ` set ps"
  by (simp add: keyMap_def keyMap_fold)


lemma fold_classifyNew:
  "fold (classifyNew olds oc) news r =
     r\<lparr>added := added r @ filter (\<lambda>p. oc (paraKey p) = None \<and>
            (case List.find (\<lambda>old. nearLine old p) olds of Some q \<Rightarrow> content q = content p | None \<Rightarrow> True)) news,
       modified := modified r @ filter (\<lambda>p. oc (paraKey p) = None \<and>
            (case List.find (\<lambda>old. nearLine old p) olds of Some q \<Rightarrow> content q \<noteq> content p | None \<Rightarrow> False)) news\<rparr>"
  by (induction news arbitrary: r) (auto simp: classifyNew_def split: option.splits)

lemma fold_classifyOld:
  "fold (classifyOld news nc) olds r =
     r\<lparr>removed := removed r @ filter (\<lambda>p. nc (paraKey p) = None \<and> \<not> list_ex (\<lambda>np. nearLine np p) news) olds\<rparr>"
  by (induction olds arbitrary: r) (auto simp: classifyOld_def)






text \<open>
  C10. Diffing a paragraph list against itself reports nothing added, modified or removed.
\<close>

theorem self_diff: "findChangedParagraphs P P = \<lparr>added = [], modified = [], removed = []\<rparr>"
  by (simp add: findChangedParagraphs_def fold_classifyNew fold_classifyOld keyMap_None)

section \<open>Properties of the context window\<close>






section \<open>Properties of the segmentation: paragraph ids\<close>

lemma pid_accumulated [simp]: "pid (accumulatedParagraph clk s e ty) = generateId clk s"
  by (simp add: accumulatedParagraph_def Let_def)

lemma idsFrom_push:
  "idsFrom clk c0 s \<Longrightarrow> pid p = generateId clk s \<Longrightarrow> idsFrom clk c0 (pushParagraph p s)"
  by (simp add: idsFrom_def pushParagraph_def generateId_def)

lemma idsFrom_upd [simp]:
  "idsFrom clk c0 (s\<lparr>currentParagraph := a\<rparr>) = idsFrom clk c0 s"
  "idsFrom clk c0 (s\<lparr>startLineVar := b\<rparr>) = idsFrom clk c0 s"
  "idsFrom clk c0 (s\<lparr>inCodeBlock := c\<rparr>) = idsFrom clk c0 s"
  "idsFrom clk c0 (s\<lparr>codeBlockDelimiter := d\<rparr>) = idsFrom clk c0 s"
  "idsFrom clk c0 (s\<lparr>ignoreNextParagraph := e\<rparr>) = idsFrom clk c0 s"
  "idsFrom clk c0 (s\<lparr>noEnhanceNextParagraph := f\<rparr>) = idsFrom clk c0 s"
  "idsFrom clk c0 (s\<lparr>styleOverrideNext := g\<rparr>) = idsFrom clk c0 s"
  "idsFrom clk c0 (s\<lparr>inFrontmatter := h\<rparr>) = idsFrom clk c0 s"
  "idsFrom clk c0 (s\<lparr>frontmatterStart := j\<rparr>) = idsFrom clk c0 s"
  by (simp_all add: idsFrom_def)

lemma idsFrom_flush: "idsFrom clk c0 s \<Longrightarrow> idsFrom clk c0 (flushAccumulated clk i s)"
  by (simp add: flushAccumulated_def Let_def idsFrom_push)

lemma idsFrom_ignore: "idsFrom clk c0 s \<Longrightarrow> idsFrom clk c0 (onIgnoreLine clk i s)"
  by (simp add: onIgnoreLine_def Let_def idsFrom_push)

lemma idsFrom_noEnhance: "idsFrom clk c0 s \<Longrightarrow> idsFrom clk c0 (onNoEnhanceLine clk i s)"
  by (simp add: onNoEnhanceLine_def Let_def idsFrom_push)

lemma idsFrom_fence: "idsFrom clk c0 s \<Longrightarrow> idsFrom clk c0 (onFenceLine clk i l t s)"
  by (simp add: onFenceLine_def pushLine_def Let_def idsFrom_push idsFrom_flush)

lemma idsFrom_frontmatter:
  "idsFrom clk c0 s \<Longrightarrow> idsFrom clk c0 (beginFrontmatter l s)"
  "idsFrom clk c0 s \<Longrightarrow> idsFrom clk c0 (endFrontmatter clk i l s)"
  by (simp_all add: beginFrontmatter_def endFrontmatter_def idsFrom_push)

lemma idsFrom_text:
  "idsFrom clk c0 s \<Longrightarrow> idsFrom clk c0 (pushLine l s)"
  "idsFrom clk c0 s \<Longrightarrow> idsFrom clk c0 (onTextLine i l s)"
  by (simp_all add: pushLine_def onTextLine_def Let_def)

lemma idsFrom_step: "idsFrom clk c0 s \<Longrightarrow> idsFrom clk c0 (segStep clk i l s)"
  by (simp add: segStep_def Let_def idsFrom_flush idsFrom_ignore idsFrom_noEnhance idsFrom_fence
        idsFrom_frontmatter idsFrom_text)

lemma idsFrom_loop: "idsFrom clk c0 s \<Longrightarrow> idsFrom clk c0 (segLoop clk i ls s)"
  by (induction ls arbitrary: i s) (auto simp: idsFrom_step)

lemma idsFrom_segment: "idsFrom clk idc (segment clk idc D)"
proof -
  have "idsFrom clk idc (initialSegState idc)"
    by (simp add: idsFrom_def initialSegState_def)
  then have "idsFrom clk idc (segLoop clk 0 (splitLines D) (initialSegState idc))"
    by (rule idsFrom_loop)
  then show ?thesis
    by (simp add: segment_def Let_def finalFlush_def idsFrom_push)
qed

lemma distinct_pids: "distinct (map pid (extractParagraphs clk idc D))"
proof -
  have "inj_on (\<lambda>k. (clk k, k)) A" for A
    by (auto simp: inj_on_def)
  then show ?thesis
    using idsFrom_segment[of clk idc D]
    by (simp add: extractParagraphs_def idsFrom_def distinct_map)
qed

section \<open>Properties of the segmentation: kinds of lines\<close>



lemma lit_drop: "lit w s = Some a \<Longrightarrow> a = drop (length w) s"
  by (simp add: lit_def split: if_splits)




















section \<open>Properties of the segmentation: directives\<close>





lemma onIgnoreLine_fields [simp]:
  "currentParagraph (onIgnoreLine clk i s) = []"
  "ignoreNextParagraph (onIgnoreLine clk i s)"
  "inFrontmatter (onIgnoreLine clk i s) = inFrontmatter s"
  "inCodeBlock (onIgnoreLine clk i s) = inCodeBlock s"
  "paragraphs (onIgnoreLine clk i s) = paragraphs s @
     (if currentParagraph s \<noteq> [] \<and> nonBlank s
      then [accumulatedParagraph clk s (int i - 1) (detectParagraphType (currentParagraph s))]
      else [])"
  by (simp_all add: onIgnoreLine_def Let_def pushParagraph_def)

lemma onNoEnhanceLine_fields [simp]:
  "currentParagraph (onNoEnhanceLine clk i s) = []"
  "noEnhanceNextParagraph (onNoEnhanceLine clk i s)"
  "inFrontmatter (onNoEnhanceLine clk i s) = inFrontmatter s"
  "inCodeBlock (onNoEnhanceLine clk i s) = inCodeBlock s"
  "paragraphs (onNoEnhanceLine clk i s) = paragraphs s @
     (if currentParagraph s \<noteq> [] \<and> nonBlank s
      then [accumulatedParagraph clk s (int i - 1) (detectParagraphType (currentParagraph s))]
      else [])"
  by (simp_all add: onNoEnhanceLine_def Let_def pushParagraph_def)



lemma accumulated_fields [simp]:
  "content (accumulatedParagraph clk s e ty) = joinWith [CHR 0x0A] (currentParagraph s)"
  "startLine (accumulatedParagraph clk s e ty) = startLineVar s"
  "endLine (accumulatedParagraph clk s e ty) = e"
  "ptype (accumulatedParagraph clk s e ty) = ty"
  "ignore (accumulatedParagraph clk s e ty) =
     (ignoreNextParagraph s \<or> hasAiIgnoreComment (joinWith [CHR 0x0A] (currentParagraph s)))"
  "noEnhance (accumulatedParagraph clk s e ty) =
     (noEnhanceNextParagraph s \<or> hasNoEnhanceComment (joinWith [CHR 0x0A] (currentParagraph s)))"
  "styleOverride (accumulatedParagraph clk s e ty) =
     (case styleOverrideNext s of Some m \<Rightarrow> Some m
      | None \<Rightarrow> extractStyleOverride (joinWith [CHR 0x0A] (currentParagraph s)))"
  by (simp_all add: accumulatedParagraph_def Let_def)




section \<open>Properties of the segmentation: spans\<close>

lemma spanInv_style [simp]: "spanInv i (s\<lparr>styleOverrideNext := g\<rparr>) = spanInv i s"
  by (simp add: spanInv_def)















































text \<open>
  Why the placement of the directives matters: a skip directive inside a fenced code block
  closes the opening fence as a paragraph of its own and leaves the start line where it
  was, so the rest of the block is pushed with a span that starts on line 0 again.
\<close>

lemma directive_inside_fence_overlap:
  "map (\<lambda>p. (startLine p, endLine p, content p))
       (extractParagraphs (\<lambda>k. 1000) 0 ''```\<newline><!-- ai-ignore -->\<newline>x\<newline>```'')
     = [(0, 0, ''```''), (0, 3, ''x\<newline>```'')]"
  by code_simp

section \<open>Properties of keeping a paragraph\<close>

lemma splitBlank_step:
  "\<not> (c = CHR 0x0A \<and> cs \<noteq> [] \<and> hd cs = CHR 0x0A)
   \<Longrightarrow> splitBlankLines (c # cs) =
         (case splitBlankLines cs of piece # pieces \<Rightarrow> (c # piece) # pieces | [] \<Rightarrow> [[c]])"
  by auto

lemma split_block_then:
  "b \<noteq> [] \<Longrightarrow> last b \<noteq> CHR 0x0A \<Longrightarrow> \<not> hasBlankLine b \<Longrightarrow> (rest = [] \<or> hd rest \<noteq> CHR 0x0A)
   \<Longrightarrow> splitBlankLines (b @ CHR 0x0A # CHR 0x0A # rest) = b # splitBlankLines rest"
proof (induction b)
  case Nil
  then show ?case by simp
next
  case (Cons c b')
  show ?case
  proof (cases b')
    case Nil
    with Cons.prems have "c \<noteq> CHR 0x0A" by simp
    moreover have "dropWhile (\<lambda>x. x = CHR 0x0A) rest = rest"
      using Cons.prems(4) by (cases rest) auto
    ultimately show ?thesis using Nil by simp
  next
    case (Cons d b'')
    with Cons.prems have nb: "\<not> (c = CHR 0x0A \<and> d = CHR 0x0A)" "\<not> hasBlankLine b'"
      "last b' \<noteq> CHR 0x0A" "b' \<noteq> []"
      by auto
    from Cons.IH[OF nb(4) nb(3) nb(2) Cons.prems(4)]
    have ih: "splitBlankLines (b' @ CHR 0x0A # CHR 0x0A # rest) = b' # splitBlankLines rest" .
    have "\<not> (c = CHR 0x0A \<and> b' @ CHR 0x0A # CHR 0x0A # rest \<noteq> []
             \<and> hd (b' @ CHR 0x0A # CHR 0x0A # rest) = CHR 0x0A)"
      using nb(1) Cons by simp
    from splitBlank_step[OF this] ih show ?thesis by simp
  qed
qed

lemma split_block:
  "b \<noteq> [] \<Longrightarrow> last b \<noteq> CHR 0x0A \<Longrightarrow> \<not> hasBlankLine b \<Longrightarrow> splitBlankLines b = [b]"
proof (induction b)
  case Nil
  then show ?case by simp
next
  case (Cons c b')
  show ?case
  proof (cases b')
    case Nil
    with Cons.prems show ?thesis by simp
  next
    case (Cons d b'')
    with Cons.prems have nb: "\<not> (c = CHR 0x0A \<and> d = CHR 0x0A)" "\<not> hasBlankLine b'"
      "last b' \<noteq> CHR 0x0A" "b' \<noteq> []"
      by auto
    from Cons.IH[OF nb(4) nb(3) nb(2)] have ih: "splitBlankLines b' = [b']" .
    have "\<not> (c = CHR 0x0A \<and> b' \<noteq> [] \<and> hd b' = CHR 0x0A)"
      using nb(1) Cons by simp
    from splitBlank_step[OF this] ih show ?thesis by simp
  qed
qed

lemma isWs_nl: "isWs (CHR 0x0A)"
  by (simp add: isWs_def)

lemma isBlock_ends: "isBlock b \<Longrightarrow> b \<noteq> [] \<and> hd b \<noteq> CHR 0x0A \<and> last b \<noteq> CHR 0x0A \<and> \<not> hasBlankLine b"
  using isWs_nl by (auto simp: isBlock_def)

lemma trim_block: "isBlock b \<Longrightarrow> trim b = b"
proof -
  assume b: "isBlock b"
  then have 1: "dropWhile isWs b = b"
    by (simp add: isBlock_def dropWhile_eq_self_iff)
  from b have "rev b \<noteq> []" "\<not> isWs (hd (rev b))"
    by (simp_all add: isBlock_def hd_rev)
  then have "dropWhile isWs (rev b) = rev b"
    by (simp add: dropWhile_eq_self_iff)
  with 1 show ?thesis by (simp add: trim_def)
qed

lemma hd_joinWith: "bs \<noteq> [] \<Longrightarrow> hd bs \<noteq> [] \<Longrightarrow> hd (joinWith sep bs) = hd (hd bs)"
  by (induction bs rule: induct_list012) auto

lemma split_join_blocks:
  "bs \<noteq> [] \<Longrightarrow> list_all isBlock bs \<Longrightarrow> splitBlankLines (joinWith [CHR 0x0A, CHR 0x0A] bs) = bs"
proof (induction bs rule: induct_list012)
  case 1
  then show ?case by simp
next
  case (2 b)
  then show ?case using isBlock_ends[of b] by (simp add: split_block)
next
  case (3 b c cs)
  then have ih: "splitBlankLines (joinWith [CHR 0x0A, CHR 0x0A] (c # cs)) = c # cs" by simp
  from 3 have b: "isBlock b" and c: "isBlock c" by simp_all
  have "hd (joinWith [CHR 0x0A, CHR 0x0A] (c # cs)) = hd c"
    using isBlock_ends[OF c] by (simp add: hd_joinWith)
  then have "hd (joinWith [CHR 0x0A, CHR 0x0A] (c # cs)) \<noteq> CHR 0x0A"
    using isBlock_ends[OF c] by simp
  then have "splitBlankLines (b @ CHR 0x0A # CHR 0x0A # joinWith [CHR 0x0A, CHR 0x0A] (c # cs))
      = b # splitBlankLines (joinWith [CHR 0x0A, CHR 0x0A] (c # cs))"
    using isBlock_ends[OF b] by (intro split_block_then) auto
  with ih show ?case by simp
qed

lemma replacement_blocks:
  assumes "bs \<noteq> []" "list_all isBlock bs"
  shows "replacementText c (joinWith [CHR 0x0A, CHR 0x0A] bs)
     = joinWith [CHR 0x0A] (map (\<lambda>b. c @ [CHR 0x0A] @ b) bs)"
proof -
  have "map trim bs = bs"
    using assms(2) by (induction bs) (auto simp: trim_block)
  moreover have "filter (\<lambda>p. length p > 0) bs = bs"
    using assms(2) by (induction bs) (auto simp: isBlock_def)
  ultimately show ?thesis
    by (simp add: replacementText_def split_join_blocks[OF assms])
qed

text \<open>
  C6. When the paragraph is found and its line range is in the document, \<^verbatim>\<open>keepParagraph\<close>
  asks for one edit of that range. Its text is made from the current enhanced text, split
  at runs of two or more line feeds: every piece is trimmed, the empty ones are dropped, the
  others get the keep directive of the file kind (the JSX comment for a name that ends in
  \<^verbatim>\<open>.mdx\<close>, the HTML comment otherwise) on a line before them, and the results are joined
  by a line feed. For blocks joined by a blank line this is every block with the directive
  before it, and for \<^verbatim>\<open>X\n\nY\<close> with the HTML comment it is the text of the scenario.
\<close>

theorem keep_replacement_text:
  assumes "findIndexFrom (\<lambda>p. pid (original p) = paragraphId) 0 (currentEnhancedParagraphs st) = Some index"
    and "\<not> staleRange editor (currentEnhancedParagraphs st ! index)"
    and "comment = (if endsWith (map toLower (fileName editor)) ''.mdx''
                    then ''{/* no-enhance */}'' else ''<!-- no-enhance -->'')"
  shows "editRequests (keepParagraph edit (Some editor) paragraphId st) =
           editRequests st @
             [(startLine (original (currentEnhancedParagraphs st ! index)),
               endLine (original (currentEnhancedParagraphs st ! index)),
               joinWith [CHR 0x0A]
                 (map (\<lambda>b. comment @ [CHR 0x0A] @ b)
                    (filter (\<lambda>b. b \<noteq> [])
                       (map trim (splitBlankLines (keptText (currentEnhancedParagraphs st ! index)))))))]
         \<and> (blocks \<noteq> [] \<and> list_all isBlock blocks \<longrightarrow>
              replacementText comment (joinWith [CHR 0x0A, CHR 0x0A] blocks)
                = joinWith [CHR 0x0A] (map (\<lambda>b. comment @ [CHR 0x0A] @ b) blocks))
         \<and> replacementText ''<!-- no-enhance -->'' ''X\<newline>\<newline>Y''
              = ''<!-- no-enhance -->\<newline>X\<newline><!-- no-enhance -->\<newline>Y''"
proof (intro conjI impI)
  show "editRequests (keepParagraph edit (Some editor) paragraphId st) =
           editRequests st @
             [(startLine (original (currentEnhancedParagraphs st ! index)),
               endLine (original (currentEnhancedParagraphs st ! index)),
               joinWith [CHR 0x0A]
                 (map (\<lambda>b. comment @ [CHR 0x0A] @ b)
                    (filter (\<lambda>b. b \<noteq> [])
                       (map trim (splitBlankLines (keptText (currentEnhancedParagraphs st ! index)))))))]"
    using assms
    by (cases "edit editor (startLine (original (currentEnhancedParagraphs st ! index)))
                 (endLine (original (currentEnhancedParagraphs st ! index)))
                 (replacementText (noEnhanceCommentFor editor) (keptText (currentEnhancedParagraphs st ! index)))")
       (simp_all add: keepParagraph_def Let_def staleRange_def noEnhanceCommentFor_def
          replacementText_def keptText_def)
next
  assume "blocks \<noteq> [] \<and> list_all isBlock blocks"
  then show "replacementText comment (joinWith [CHR 0x0A, CHR 0x0A] blocks)
                = joinWith [CHR 0x0A] (map (\<lambda>b. comment @ [CHR 0x0A] @ b) blocks)"
    by (simp add: replacement_blocks)
next
  show "replacementText ''<!-- no-enhance -->'' ''X\<newline>\<newline>Y''
              = ''<!-- no-enhance -->\<newline>X\<newline><!-- no-enhance -->\<newline>Y''"
    by (simp add: replacementText_def trim_def isWs_def)
qed


lemma findIndexFrom_bound:
  "findIndexFrom P i xs = Some k \<Longrightarrow> i \<le> k \<and> k < i + length xs \<and> P (xs ! (k - i))"
proof (induction xs arbitrary: i)
  case Nil
  then show ?case by simp
next
  case (Cons x xs)
  show ?case
  proof (cases "P x")
    case True
    with Cons.prems show ?thesis by simp
  next
    case False
    with Cons.prems have "findIndexFrom P (Suc i) xs = Some k" by simp
    from Cons.IH[OF this] show ?thesis by (auto simp: Suc_diff_le)
  qed
qed

text \<open>The scenario in a Markdown file and in an MDX file.\<close>

theorem keep_replacement_text_witness:
  "findIndexFrom (\<lambda>p. pid (original p) = (0, 0)) 0 [enhancedPara (para 3 ''old'') ''X\<newline>\<newline>Y''] = Some 0
   \<and> \<not> staleRange (mdEditor 4) (enhancedPara (para 3 ''old'') ''X\<newline>\<newline>Y'')
   \<and> [''X'', ''Y''] \<noteq> [] \<and> list_all isBlock [''X'', ''Y'']
   \<and> editRequests (keepParagraph alwaysApplied (Some (mdEditor 4)) (0, 0)
        (emptyState\<lparr>currentEnhancedParagraphs := [enhancedPara (para 3 ''old'') ''X\<newline>\<newline>Y'']\<rparr>))
      = [(3, 3, ''<!-- no-enhance -->\<newline>X\<newline><!-- no-enhance -->\<newline>Y'')]
   \<and> editRequests (keepParagraph alwaysApplied (Some (mdxEditor 4)) (0, 0)
        (emptyState\<lparr>currentEnhancedParagraphs := [enhancedPara (para 3 ''old'') ''X\<newline>\<newline>Y'']\<rparr>))
      = [(3, 3, ''{/* no-enhance */}\<newline>X\<newline>{/* no-enhance */}\<newline>Y'')]"
  using keep_replacement_text[of "(0, 0)"
      "emptyState\<lparr>currentEnhancedParagraphs := [enhancedPara (para 3 ''old'') ''X\<newline>\<newline>Y'']\<rparr>"
      0 "mdEditor 4" "''<!-- no-enhance -->''" alwaysApplied "[''X'', ''Y'']"]
    keep_replacement_text[of "(0, 0)"
      "emptyState\<lparr>currentEnhancedParagraphs := [enhancedPara (para 3 ''old'') ''X\<newline>\<newline>Y'']\<rparr>"
      0 "mdxEditor 4" "''{/* no-enhance */}''" alwaysApplied "[''X'', ''Y'']"]
  by (simp add: emptyState_def enhancedPara_def para_def mdEditor_def mdxEditor_def staleRange_def
        endsWith_def toLower_def isBlock_def isWs_def keptText_def trim_def)

text \<open>
  C7, as amended. When the line range of the paragraph is no longer in the document, the
  keep operation shows its error message, asks for no edit, and leaves the state as it
  was: the paragraph is not marked kept and the kept-set is unchanged. The same holds,
  after the request, when the edit rejects. The kept flag and the entry of the kept-set
  are set only after the edit has returned, applied or not.
\<close>

theorem keep_marks_after_write:
  assumes "findIndexFrom (\<lambda>p. pid (original p) = paragraphId) 0 (currentEnhancedParagraphs st) = Some index"
    and "p = currentEnhancedParagraphs st ! index"
    and "st' = keepParagraph edit (Some editor) paragraphId st"
    and "request = (startLine (original p), endLine (original p),
                    replacementText (noEnhanceCommentFor editor) (keptText p))"
  shows "(staleRange editor p \<longrightarrow>
            st' = st\<lparr>errorMessages := errorMessages st @ [keepMessage]\<rparr>)
       \<and> (\<not> staleRange editor p \<and> edit editor (fst request) (fst (snd request)) (snd (snd request)) = EditRejects \<longrightarrow>
            st' = st\<lparr>editRequests := editRequests st @ [request],
                     errorMessages := errorMessages st @ [keepMessage]\<rparr>)
       \<and> (\<not> staleRange editor p \<and> edit editor (fst request) (fst (snd request)) (snd (snd request)) \<noteq> EditRejects \<longrightarrow>
            editRequests st' = editRequests st @ [request]
            \<and> errorMessages st' = errorMessages st
            \<and> kept (currentEnhancedParagraphs st' ! index) = Some True
            \<and> keptParagraphsCache st' (hashContent (trim (content (original p)))) = Some True)"
proof -
  from findIndexFrom_bound[OF assms(1)] have idx: "index < length (currentEnhancedParagraphs st)"
    by simp
  show ?thesis
    using assms idx
    by (cases "edit editor (startLine (original p)) (endLine (original p))
                 (replacementText (noEnhanceCommentFor editor) (keptText p))")
       (auto simp: keepParagraph_def Let_def staleRange_def keptText_def keepMessage_def)
qed

text \<open>A paragraph at line 5 in a document of one line, and in one of six lines.\<close>

theorem keep_marks_after_write_witness:
  "findIndexFrom (\<lambda>p. pid (original p) = (0, 0)) 0 [enhancedPara (para 5 ''Hello'') ''Better''] = Some 0
   \<and> staleRange (mdEditor 1) (enhancedPara (para 5 ''Hello'') ''Better'')
   \<and> keepParagraph alwaysApplied (Some (mdEditor 1)) (0, 0)
        (emptyState\<lparr>currentEnhancedParagraphs := [enhancedPara (para 5 ''Hello'') ''Better'']\<rparr>)
      = emptyState\<lparr>currentEnhancedParagraphs := [enhancedPara (para 5 ''Hello'') ''Better''],
                    errorMessages := [keepMessage]\<rparr>
   \<and> \<not> staleRange (mdEditor 6) (enhancedPara (para 5 ''Hello'') ''Better'')
   \<and> alwaysApplied (mdEditor 6) 5 5 ''<!-- no-enhance -->\<newline>Better'' \<noteq> EditRejects
   \<and> kept (currentEnhancedParagraphs (keepParagraph alwaysApplied (Some (mdEditor 6)) (0, 0)
        (emptyState\<lparr>currentEnhancedParagraphs := [enhancedPara (para 5 ''Hello'') ''Better'']\<rparr>)) ! 0)
      = Some True
   \<and> keepParagraph (\<lambda>e a b t. EditRejects) (Some (mdEditor 6)) (0, 0)
        (emptyState\<lparr>currentEnhancedParagraphs := [enhancedPara (para 5 ''Hello'') ''Better'']\<rparr>)
      = emptyState\<lparr>currentEnhancedParagraphs := [enhancedPara (para 5 ''Hello'') ''Better''],
                    editRequests := [(5, 5, ''<!-- no-enhance -->\<newline>Better'')],
                    errorMessages := [keepMessage]\<rparr>"
  using keep_marks_after_write[of "(0, 0)"
      "emptyState\<lparr>currentEnhancedParagraphs := [enhancedPara (para 5 ''Hello'') ''Better'']\<rparr>"
      0 "enhancedPara (para 5 ''Hello'') ''Better''" _ alwaysApplied "mdEditor 1", OF _ _ refl refl]
    keep_marks_after_write[of "(0, 0)"
      "emptyState\<lparr>currentEnhancedParagraphs := [enhancedPara (para 5 ''Hello'') ''Better'']\<rparr>"
      0 "enhancedPara (para 5 ''Hello'') ''Better''" _ alwaysApplied "mdEditor 6", OF _ _ refl refl]
    keep_marks_after_write[of "(0, 0)"
      "emptyState\<lparr>currentEnhancedParagraphs := [enhancedPara (para 5 ''Hello'') ''Better'']\<rparr>"
      0 "enhancedPara (para 5 ''Hello'') ''Better''" _ "\<lambda>e a b t. EditRejects" "mdEditor 6", OF _ _ refl refl]
  by (simp add: emptyState_def enhancedPara_def para_def mdEditor_def staleRange_def
        alwaysApplied_def keptText_def noEnhanceCommentFor_def endsWith_def toLower_def
        replacementText_def trim_def isWs_def)

text \<open>
  C7 as stated fails: with a stale line range the failure is shown, but the paragraph is
  not marked kept and its fingerprint is not in the kept-set.
\<close>

theorem keep_optimistic_counterexample:
  "findIndexFrom (\<lambda>p. pid (original p) = (0, 0)) 0 [enhancedPara (para 5 ''Hello'') ''Better''] = Some 0
   \<and> staleRange (mdEditor 1) (enhancedPara (para 5 ''Hello'') ''Better'')
   \<and> errorMessages (keepParagraph alwaysApplied (Some (mdEditor 1)) (0, 0)
        (emptyState\<lparr>currentEnhancedParagraphs := [enhancedPara (para 5 ''Hello'') ''Better'']\<rparr>))
      = [''Failed to write kept paragraph to source'']
   \<and> kept (currentEnhancedParagraphs (keepParagraph alwaysApplied (Some (mdEditor 1)) (0, 0)
        (emptyState\<lparr>currentEnhancedParagraphs := [enhancedPara (para 5 ''Hello'') ''Better'']\<rparr>)) ! 0)
      = None
   \<and> keptParagraphsCache (keepParagraph alwaysApplied (Some (mdEditor 1)) (0, 0)
        (emptyState\<lparr>currentEnhancedParagraphs := [enhancedPara (para 5 ''Hello'') ''Better'']\<rparr>))
        (hashContent (trim ''Hello''))
      = None"
  by (simp add: keepParagraph_def emptyState_def enhancedPara_def para_def mdEditor_def
        staleRange_def Let_def)

section \<open>Properties of the pass over a document\<close>

lemma enhanceStep_length [simp]:
  "length (currentEnhancedParagraphs (enhanceStep env ps i st)) = length (currentEnhancedParagraphs st)"
  by (simp add: enhanceStep_def Let_def split: ServiceOutcome.splits)

lemma enhanceStep_nth_other:
  "j \<noteq> i \<Longrightarrow> currentEnhancedParagraphs (enhanceStep env ps i st) ! j = currentEnhancedParagraphs st ! j"
  by (simp add: enhanceStep_def Let_def split: ServiceOutcome.splits)

lemma enhanceStep_nonpending:
  "status (currentEnhancedParagraphs st ! i) \<noteq> Pending \<Longrightarrow> enhanceStep env ps i st = st"
  by (simp add: enhanceStep_def Let_def)

lemma enhanceStep_kept [simp]:
  "keptParagraphsCache (enhanceStep env ps i st) = keptParagraphsCache st"
  by (simp add: enhanceStep_def Let_def split: ServiceOutcome.splits)


lemma enhanceStep_calls:
  "serviceCalls (enhanceStep env ps i st) =
     serviceCalls st @
       (if status (currentEnhancedParagraphs st ! i) = Pending
           \<and> \<not> skipsEnhancement (original (currentEnhancedParagraphs st ! i))
        then [(requestFor env ps i (original (currentEnhancedParagraphs st ! i)),
               pid (original (currentEnhancedParagraphs st ! i)))]
        else [])"
  by (simp add: enhanceStep_def Let_def split: ServiceOutcome.splits)

lemma enhanceLoop_length [simp]:
  "length (currentEnhancedParagraphs (enhanceLoop env ps i k st)) = length (currentEnhancedParagraphs st)"
  by (induction k arbitrary: i st) auto

lemma enhanceLoop_kept [simp]:
  "keptParagraphsCache (enhanceLoop env ps i k st) = keptParagraphsCache st"
  by (induction k arbitrary: i st) auto


lemma enhanceLoop_nonpending:
  "status (currentEnhancedParagraphs st ! j) \<noteq> Pending
   \<Longrightarrow> currentEnhancedParagraphs (enhanceLoop env ps i k st) ! j = currentEnhancedParagraphs st ! j"
proof (induction k arbitrary: i st)
  case 0
  then show ?case by simp
next
  case (Suc k)
  show ?case
  proof (cases "cancelRequested env i")
    case True
    then show ?thesis by simp
  next
    case False
    have same: "currentEnhancedParagraphs (enhanceStep env ps i st) ! j = currentEnhancedParagraphs st ! j"
    proof (cases "j = i")
      case True
      with Suc.prems show ?thesis by (simp add: enhanceStep_nonpending)
    next
      case False
      then show ?thesis by (simp add: enhanceStep_nth_other)
    qed
    with Suc.prems have "status (currentEnhancedParagraphs (enhanceStep env ps i st) ! j) \<noteq> Pending"
      by simp
    from Suc.IH[OF this] same False show ?thesis by simp
  qed
qed


lemma enhanceLoop_calls:
  "\<exists>new. serviceCalls (enhanceLoop env ps i k st) = serviceCalls st @ new
     \<and> (\<forall>c \<in> set new. \<exists>m. i \<le> m \<and> m < i + k
           \<and> status (currentEnhancedParagraphs st ! m) = Pending
           \<and> \<not> skipsEnhancement (original (currentEnhancedParagraphs st ! m))
           \<and> snd c = pid (original (currentEnhancedParagraphs st ! m)))"
proof (induction k arbitrary: i st)
  case 0
  then show ?case by simp
next
  case (Suc k)
  show ?case
  proof (cases "cancelRequested env i")
    case True
    then show ?thesis by simp
  next
    case False
    let ?st1 = "enhanceStep env ps i st"
    from Suc.IH[of "Suc i" ?st1] obtain new where
      new: "serviceCalls (enhanceLoop env ps (Suc i) k ?st1) = serviceCalls ?st1 @ new"
      and each: "\<forall>c \<in> set new. \<exists>m. Suc i \<le> m \<and> m < Suc i + k
           \<and> status (currentEnhancedParagraphs ?st1 ! m) = Pending
           \<and> \<not> skipsEnhancement (original (currentEnhancedParagraphs ?st1 ! m))
           \<and> snd c = pid (original (currentEnhancedParagraphs ?st1 ! m))"
      by blast
    let ?first = "(if status (currentEnhancedParagraphs st ! i) = Pending
           \<and> \<not> skipsEnhancement (original (currentEnhancedParagraphs st ! i))
        then [(requestFor env ps i (original (currentEnhancedParagraphs st ! i)),
               pid (original (currentEnhancedParagraphs st ! i)))]
        else [])"
    have "serviceCalls (enhanceLoop env ps i (Suc k) st) = serviceCalls st @ (?first @ new)"
      using False new by (simp add: enhanceStep_calls)
    moreover have "\<forall>c \<in> set (?first @ new). \<exists>m. i \<le> m \<and> m < i + Suc k
           \<and> status (currentEnhancedParagraphs st ! m) = Pending
           \<and> \<not> skipsEnhancement (original (currentEnhancedParagraphs st ! m))
           \<and> snd c = pid (original (currentEnhancedParagraphs st ! m))"
    proof
      fix c assume "c \<in> set (?first @ new)"
      then consider "c \<in> set ?first" | "c \<in> set new" by auto
      then show "\<exists>m. i \<le> m \<and> m < i + Suc k
           \<and> status (currentEnhancedParagraphs st ! m) = Pending
           \<and> \<not> skipsEnhancement (original (currentEnhancedParagraphs st ! m))
           \<and> snd c = pid (original (currentEnhancedParagraphs st ! m))"
      proof cases
        case 1
        then show ?thesis by (auto split: if_splits intro!: exI[of _ i])
      next
        case 2
        with each obtain m where m: "Suc i \<le> m" "m < Suc i + k"
           "status (currentEnhancedParagraphs ?st1 ! m) = Pending"
           "\<not> skipsEnhancement (original (currentEnhancedParagraphs ?st1 ! m))"
           "snd c = pid (original (currentEnhancedParagraphs ?st1 ! m))"
          by blast
        then have "currentEnhancedParagraphs ?st1 ! m = currentEnhancedParagraphs st ! m"
          by (simp add: enhanceStep_nth_other)
        with m show ?thesis by (intro exI[of _ m]) simp
      qed
    qed
    ultimately show ?thesis by blast
  qed
qed

lemma processDocument_unfold:
  assumes "panelOpen st"
  shows "processDocument env D force st =
     (let ps = extractParagraphs (clock env) (processorIdCounter st) D;
          init = map (initialEnhanced st force (findChangedParagraphs (currentParagraphs st) ps)) ps;
          st1 = st\<lparr>processorIdCounter := idCounter (segment (clock env) (processorIdCounter st) D),
                   currentParagraphs := ps, currentEnhancedParagraphs := init\<rparr>
      in if list_ex (\<lambda>e. status e = Pending) init
         then enhanceLoop env ps 0 (length ps) st1 else st1)"
proof -
  have "(filter P xs = []) = (\<not> list_ex P xs)" for P :: "EnhancedParagraph \<Rightarrow> bool" and xs
    by (simp add: filter_empty_conv list_ex_iff)
  then show ?thesis
    using assms by (simp add: processDocument_def Let_def extractParagraphs_def)
qed

lemma initial_original [simp]: "original (initialEnhanced st force ch p) = p"
  by (simp add: initialEnhanced_def Let_def split: option.splits)

lemma initial_kept:
  "keptParagraphsCache st (hashContent (trim (content p))) = Some True
   \<Longrightarrow> initialEnhanced st force ch p =
        \<lparr>original = p, enhanced = content p, status = Complete, error = None,
         appliedStyle = appliedStyleCache st (hashContent (trim (content p))),
         kept = Some True, suggestions = None\<rparr>"
  by (simp add: initialEnhanced_def Let_def)

lemma kept_immune_open:
  assumes "panelOpen st"
    and "ps = extractParagraphs (clock env) (processorIdCounter st) D"
    and "i < length ps"
    and "keptParagraphsCache st (hashContent (trim (content (ps ! i)))) = Some True"
    and "st' = processDocument env D forceRefresh st"
  shows "length (currentEnhancedParagraphs st') = length ps
       \<and> original (currentEnhancedParagraphs st' ! i) = ps ! i
       \<and> status (currentEnhancedParagraphs st' ! i) = Complete
       \<and> kept (currentEnhancedParagraphs st' ! i) = Some True
       \<and> enhanced (currentEnhancedParagraphs st' ! i) = content (ps ! i)
       \<and> (\<exists>new. serviceCalls st' = serviceCalls st @ new \<and> pid (ps ! i) \<notin> snd ` set new)
       \<and> keptParagraphsCache st' = keptParagraphsCache st"
proof -
  let ?ch = "findChangedParagraphs (currentParagraphs st) ps"
  let ?init = "map (initialEnhanced st forceRefresh ?ch) ps"
  let ?st1 = "st\<lparr>processorIdCounter := idCounter (segment (clock env) (processorIdCounter st) D),
                   currentParagraphs := ps, currentEnhancedParagraphs := ?init\<rparr>"
  have st': "st' = (if list_ex (\<lambda>e. status e = Pending) ?init
                   then enhanceLoop env ps 0 (length ps) ?st1 else ?st1)"
    using assms(1,2,5) by (simp add: processDocument_unfold Let_def)
  have init_i: "?init ! i = \<lparr>original = ps ! i, enhanced = content (ps ! i), status = Complete,
         error = None, appliedStyle = appliedStyleCache st (hashContent (trim (content (ps ! i)))),
         kept = Some True, suggestions = None\<rparr>"
    using assms(3,4) by (simp add: initial_kept)
  then have np: "status (currentEnhancedParagraphs ?st1 ! i) \<noteq> Pending" by simp
  have entry: "currentEnhancedParagraphs st' ! i = ?init ! i"
    using enhanceLoop_nonpending[OF np, of env ps 0 "length ps"] by (simp add: st')
  have len: "length (currentEnhancedParagraphs st') = length ps"
    by (simp add: st')
  have calls: "\<exists>new. serviceCalls st' = serviceCalls st @ new \<and> pid (ps ! i) \<notin> snd ` set new"
  proof (cases "list_ex (\<lambda>e. status e = Pending) ?init")
    case False
    then have "serviceCalls st' = serviceCalls st @ []" by (simp add: st')
    then show ?thesis by (intro exI[of _ "[]"]) simp
  next
    case True
    from enhanceLoop_calls[of env ps 0 "length ps" ?st1] obtain new where
      new: "serviceCalls (enhanceLoop env ps 0 (length ps) ?st1) = serviceCalls ?st1 @ new"
      and each: "\<forall>c \<in> set new. \<exists>m. 0 \<le> m \<and> m < 0 + length ps
           \<and> status (currentEnhancedParagraphs ?st1 ! m) = Pending
           \<and> \<not> skipsEnhancement (original (currentEnhancedParagraphs ?st1 ! m))
           \<and> snd c = pid (original (currentEnhancedParagraphs ?st1 ! m))"
      by blast
    have "pid (ps ! i) \<notin> snd ` set new"
    proof
      assume "pid (ps ! i) \<in> snd ` set new"
      then obtain c where c: "c \<in> set new" "snd c = pid (ps ! i)" by auto
      with each obtain m where m: "m < length ps" "status (?init ! m) = Pending"
          "snd c = pid (original (?init ! m))"
        by auto
      then have "pid (ps ! m) = pid (ps ! i)" using c by simp
      moreover have "distinct (map pid ps)" using assms(2) by (simp add: distinct_pids)
      ultimately have "m = i"
        using m(1) assms(3) by (metis distinct_conv_nth length_map nth_map)
      with m(2) init_i show False by simp
    qed
    with new True show ?thesis by (intro exI[of _ new]) (simp add: st')
  qed
  have keptset: "keptParagraphsCache st' = keptParagraphsCache st"
    by (simp add: st')
  from entry init_i len calls keptset show ?thesis by simp
qed


text \<open>
  C3, as amended. While the panel is open, a pass over a document puts every paragraph
  whose trimmed content has a fingerprint in the kept-set into the state complete and kept,
  with the original content as its enhanced text, makes no call of the service with the id
  of that paragraph, and leaves the kept-set as it was, so that the same holds for every
  later pass. A pass without a panel returns at once and changes nothing.
\<close>

theorem kept_paragraph_immune:
  assumes "ps = extractParagraphs (clock env) (processorIdCounter st) D"
    and "i < length ps"
    and "keptParagraphsCache st (hashContent (trim (content (ps ! i)))) = Some True"
    and "st' = processDocument env D forceRefresh st"
  shows "(panelOpen st \<longrightarrow>
            length (currentEnhancedParagraphs st') = length ps
          \<and> original (currentEnhancedParagraphs st' ! i) = ps ! i
          \<and> status (currentEnhancedParagraphs st' ! i) = Complete
          \<and> kept (currentEnhancedParagraphs st' ! i) = Some True
          \<and> enhanced (currentEnhancedParagraphs st' ! i) = content (ps ! i)
          \<and> (\<exists>new. serviceCalls st' = serviceCalls st @ new \<and> pid (ps ! i) \<notin> snd ` set new)
          \<and> keptParagraphsCache st' = keptParagraphsCache st)
       \<and> (\<not> panelOpen st \<longrightarrow> st' = st)"
proof -
  have open_case: "length (currentEnhancedParagraphs st') = length ps
          \<and> original (currentEnhancedParagraphs st' ! i) = ps ! i
          \<and> status (currentEnhancedParagraphs st' ! i) = Complete
          \<and> kept (currentEnhancedParagraphs st' ! i) = Some True
          \<and> enhanced (currentEnhancedParagraphs st' ! i) = content (ps ! i)
          \<and> (\<exists>new. serviceCalls st' = serviceCalls st @ new \<and> pid (ps ! i) \<notin> snd ` set new)
          \<and> keptParagraphsCache st' = keptParagraphsCache st"
    if "panelOpen st"
    using kept_immune_open[OF that assms(1) assms(2) assms(3) assms(4)] .
  have closed_case: "st' = st" if "\<not> panelOpen st"
    using that assms(4) by (simp add: processDocument_def)
  from open_case closed_case show ?thesis by blast
qed

lemma ex_segment_hello:
  "segment (\<lambda>k. 1000) 0 ''Hello'' =
     \<lparr>paragraphs = [\<lparr>content = ''Hello'', startLine = 0, endLine = 0, ptype = PText,
         pid = (1000, 0), ignore = False, noEnhance = False, styleOverride = None\<rparr>],
      currentParagraph = [''Hello''], startLineVar = 0, inCodeBlock = False,
      codeBlockDelimiter = [], ignoreNextParagraph = False, noEnhanceNextParagraph = False,
      styleOverrideNext = None, inFrontmatter = False, frontmatterStart = - 1, idCounter = 1\<rparr>"
  by code_simp

lemma ex_paragraphs_hello:
  "extractParagraphs (clock (envWith svc)) (processorIdCounter keptHello) ''Hello'' =
     [\<lparr>content = ''Hello'', startLine = 0, endLine = 0, ptype = PText,
         pid = (1000, 0), ignore = False, noEnhance = False, styleOverride = None\<rparr>]"
  by (simp add: extractParagraphs_def envWith_def keptHello_def emptyState_def ex_segment_hello)

text \<open>The document \<^verbatim>\<open>Hello\<close> with its fingerprint in the kept-set, under a forced refresh.\<close>

theorem kept_paragraph_immune_witness:
  "panelOpen keptHello
   \<and> 0 < length (extractParagraphs (clock (envWith answering)) (processorIdCounter keptHello) ''Hello'')
   \<and> keptParagraphsCache keptHello (hashContent (trim (content
         (extractParagraphs (clock (envWith answering)) (processorIdCounter keptHello) ''Hello'' ! 0))))
       = Some True
   \<and> status (currentEnhancedParagraphs (processDocument (envWith answering) ''Hello'' True keptHello) ! 0)
       = Complete
   \<and> kept (currentEnhancedParagraphs (processDocument (envWith answering) ''Hello'' True keptHello) ! 0)
       = Some True
   \<and> enhanced (currentEnhancedParagraphs (processDocument (envWith answering) ''Hello'' True keptHello) ! 0)
       = ''Hello''"
proof -
  have h1: "panelOpen keptHello"
    by (simp add: keptHello_def emptyState_def)
  have h3: "0 < length (extractParagraphs (clock (envWith answering)) (processorIdCounter keptHello) ''Hello'')"
    by (simp add: ex_paragraphs_hello)
  have h4: "keptParagraphsCache keptHello (hashContent (trim (content
         (extractParagraphs (clock (envWith answering)) (processorIdCounter keptHello) ''Hello'' ! 0))))
       = Some True"
    by (simp add: ex_paragraphs_hello) (simp add: keptHello_def)
  from kept_paragraph_immune[OF refl h3 h4 refl, of True] h1 h3 h4
  show ?thesis by (simp add: ex_paragraphs_hello)
qed

text \<open>
  C3 as stated fails for a pass without a panel: the fingerprint of the paragraph is in the
  kept-set, and the pass produces no enhanced paragraph at all.
\<close>

theorem kept_without_panel_counterexample:
  "keptParagraphsCache closedPanel (hashContent (trim (content
         (extractParagraphs (clock (envWith answering)) (processorIdCounter closedPanel) ''Hello'' ! 0))))
       = Some True
   \<and> length (extractParagraphs (clock (envWith answering)) (processorIdCounter closedPanel) ''Hello'') = 1
   \<and> currentEnhancedParagraphs (processDocument (envWith answering) ''Hello'' False closedPanel) = []"
proof -
  have "extractParagraphs (clock (envWith answering)) (processorIdCounter closedPanel) ''Hello'' =
     [\<lparr>content = ''Hello'', startLine = 0, endLine = 0, ptype = PText,
         pid = (1000, 0), ignore = False, noEnhance = False, styleOverride = None\<rparr>]"
    by (simp add: extractParagraphs_def envWith_def closedPanel_def keptHello_def emptyState_def
          ex_segment_hello)
  then show ?thesis
    by (simp add: processDocument_def) (simp add: closedPanel_def keptHello_def emptyState_def)
qed






section \<open>Properties of a second pass over the same text\<close>

lemma erase_fields:
  assumes "eraseIds s = eraseIds s'"
  shows "map withoutId (paragraphs s) = map withoutId (paragraphs s')"
    "currentParagraph s = currentParagraph s'" "startLineVar s = startLineVar s'"
    "inCodeBlock s = inCodeBlock s'" "codeBlockDelimiter s = codeBlockDelimiter s'"
    "ignoreNextParagraph s = ignoreNextParagraph s'"
    "noEnhanceNextParagraph s = noEnhanceNextParagraph s'"
    "styleOverrideNext s = styleOverrideNext s'" "inFrontmatter s = inFrontmatter s'"
    "frontmatterStart s = frontmatterStart s'"
  using assms by (cases s; cases s'; simp add: eraseIds_def)+

lemma erase_eqI:
  assumes "map withoutId (paragraphs s) = map withoutId (paragraphs s')"
    "currentParagraph s = currentParagraph s'" "startLineVar s = startLineVar s'"
    "inCodeBlock s = inCodeBlock s'" "codeBlockDelimiter s = codeBlockDelimiter s'"
    "ignoreNextParagraph s = ignoreNextParagraph s'"
    "noEnhanceNextParagraph s = noEnhanceNextParagraph s'"
    "styleOverrideNext s = styleOverrideNext s'" "inFrontmatter s = inFrontmatter s'"
    "frontmatterStart s = frontmatterStart s'"
  shows "eraseIds s = eraseIds s'"
  using assms by (cases s; cases s'; simp add: eraseIds_def)

lemma erase_accumulated:
  assumes "eraseIds s = eraseIds s'"
  shows "withoutId (accumulatedParagraph clk s e ty) = withoutId (accumulatedParagraph clk' s' e ty)"
  using erase_fields[OF assms] by (simp add: withoutId_def accumulatedParagraph_def Let_def)

lemma erase_nonBlank: "eraseIds s = eraseIds s' \<Longrightarrow> nonBlank s = nonBlank s'"
  using erase_fields(2)[of s s'] by (simp add: nonBlank_def)

lemma erase_push:
  assumes "eraseIds s = eraseIds s'" "withoutId p = withoutId p'"
  shows "eraseIds (pushParagraph p s) = eraseIds (pushParagraph p' s')"
  using erase_fields[OF assms(1)] assms(2)
  by (intro erase_eqI) (simp_all add: pushParagraph_def)

lemma erase_pushLine:
  assumes "eraseIds s = eraseIds s'"
  shows "eraseIds (pushLine l s) = eraseIds (pushLine l s')"
  using erase_fields[OF assms] by (intro erase_eqI) (simp_all add: pushLine_def)

lemma erase_flush:
  assumes "eraseIds s = eraseIds s'"
  shows "eraseIds (flushAccumulated clk i s) = eraseIds (flushAccumulated clk' i s')"
  using erase_fields[OF assms] erase_nonBlank[OF assms] erase_accumulated[OF assms, of clk _ _ clk']
  by (intro erase_eqI) (simp_all add: flushAccumulated_def Let_def pushParagraph_def)

lemma erase_ignore:
  assumes "eraseIds s = eraseIds s'"
  shows "eraseIds (onIgnoreLine clk i s) = eraseIds (onIgnoreLine clk' i s')"
  using erase_fields[OF assms] erase_nonBlank[OF assms] erase_accumulated[OF assms, of clk _ _ clk']
  by (intro erase_eqI) (simp_all add: onIgnoreLine_def Let_def pushParagraph_def)

lemma erase_noEnhance:
  assumes "eraseIds s = eraseIds s'"
  shows "eraseIds (onNoEnhanceLine clk i s) = eraseIds (onNoEnhanceLine clk' i s')"
  using erase_fields[OF assms] erase_nonBlank[OF assms] erase_accumulated[OF assms, of clk _ _ clk']
  by (intro erase_eqI) (simp_all add: onNoEnhanceLine_def Let_def pushParagraph_def)

lemma erase_fence:
  assumes "eraseIds s = eraseIds s'"
  shows "eraseIds (onFenceLine clk i l t s) = eraseIds (onFenceLine clk' i l t s')"
  using erase_fields[OF assms] erase_fields[OF erase_flush[OF assms, of clk i clk']]
  by (intro erase_eqI) (simp_all add: onFenceLine_def pushParagraph_def pushLine_def withoutId_def)

lemma erase_beginFrontmatter:
  assumes "eraseIds s = eraseIds s'"
  shows "eraseIds (beginFrontmatter l s) = eraseIds (beginFrontmatter l s')"
  using erase_fields[OF assms] by (intro erase_eqI) (simp_all add: beginFrontmatter_def)

lemma erase_endFrontmatter:
  assumes "eraseIds s = eraseIds s'"
  shows "eraseIds (endFrontmatter clk i l s) = eraseIds (endFrontmatter clk' i l s')"
  using erase_fields[OF assms]
  by (intro erase_eqI) (simp_all add: endFrontmatter_def pushParagraph_def withoutId_def)

lemma erase_text:
  assumes "eraseIds s = eraseIds s'"
  shows "eraseIds (onTextLine i l s) = eraseIds (onTextLine i l s')"
  using erase_fields[OF assms] by (intro erase_eqI) (simp_all add: onTextLine_def pushLine_def)

lemma erase_style:
  assumes "eraseIds s = eraseIds s'"
  shows "eraseIds (s\<lparr>styleOverrideNext := m\<rparr>) = eraseIds (s'\<lparr>styleOverrideNext := m\<rparr>)"
  using erase_fields[OF assms] by (intro erase_eqI) simp_all

lemma erase_if:
  "(c \<Longrightarrow> eraseIds a = eraseIds a') \<Longrightarrow> (\<not> c \<Longrightarrow> eraseIds b = eraseIds b')
   \<Longrightarrow> eraseIds (if c then a else b) = eraseIds (if c then a' else b')"
  by simp

lemma erase_step:
  assumes "eraseIds s = eraseIds s'"
  shows "eraseIds (segStep clk i l s) = eraseIds (segStep clk' i l s')"
proof -
  note c = erase_fields(4,9)[OF assms]
  note branch = erase_beginFrontmatter[OF assms] erase_endFrontmatter[OF assms]
    erase_pushLine[OF assms] erase_ignore[OF assms] erase_noEnhance[OF assms]
    erase_style[OF assms] erase_fence[OF assms] erase_flush[OF assms] erase_text[OF assms]
  show ?thesis
    unfolding segStep_def Let_def c
    by (intro erase_if branch)
qed

lemma erase_loop:
  "eraseIds s = eraseIds s' \<Longrightarrow> eraseIds (segLoop clk i ls s) = eraseIds (segLoop clk' i ls s')"
proof (induction ls arbitrary: i s s')
  case Nil
  then show ?case by simp
next
  case (Cons l ls)
  from Cons.IH[OF erase_step[OF Cons.prems, of clk i l clk']] show ?case by simp
qed

lemma erase_final:
  assumes "eraseIds s = eraseIds s'"
  shows "eraseIds (finalFlush clk n s) = eraseIds (finalFlush clk' n s')"
  using erase_fields[OF assms] erase_nonBlank[OF assms] erase_accumulated[OF assms, of clk _ _ clk']
  by (intro erase_eqI) (simp_all add: finalFlush_def pushParagraph_def)

lemma segment_ids_only:
  "map withoutId (extractParagraphs clk idc D) = map withoutId (extractParagraphs clk' idc' D)"
proof -
  have "eraseIds (initialSegState idc) = eraseIds (initialSegState idc')"
    by (simp add: eraseIds_def initialSegState_def)
  from erase_fields(1)[OF erase_final[OF erase_loop[OF this]], of clk "length (splitLines D)" clk 0
      "splitLines D" clk' clk']
  show ?thesis
    by (simp add: extractParagraphs_def segment_def Let_def)
qed

end
